theory Spec2Isabelle
  imports Main "HOL-Library.Word" "HOL-Library.Sublist"
begin

section \<open>The PostGIS plugin's Connection class (plugins/input/postgis/connection.hpp)\<close>

subsection \<open>Data of libpq-fe.h used by the class\<close>

text \<open>
  The class wraps one libpq handle. libpq, \<open>select(2)\<close> and the mapnik timer are
  outside the class: they are modelled as a scripted environment (record \<open>libpq\<close>) that
  answers each primitive from a list of replies and records every call in \<open>calls\<close>.
  The methods of the class are translated one by one, threading the object's fields
  (record \<open>Connection\<close>) and the environment explicitly. An exception is a value:
  every method that can throw returns \<open>exn + 'a\<close>.

  The scripts are finite lists, and any list is allowed: the replies need not be those of
  a well-behaved server. A handle that stays busy for ever, or that never runs out of
  results, is outside the model; on every script each loop of the class terminates, as
  the termination proofs of the loop functions show.
\<close>

datatype ConnStatusType =
    CONNECTION_OK
  | CONNECTION_BAD
  | CONNECTION_STARTED
  | CONNECTION_MADE
  | CONNECTION_AWAITING_RESPONSE
  | CONNECTION_AUTH_OK
  | CONNECTION_SETENV
  | CONNECTION_SSL_STARTUP
  | CONNECTION_NEEDED

datatype ExecStatusType =
    PGRES_EMPTY_QUERY
  | PGRES_COMMAND_OK
  | PGRES_TUPLES_OK
  | PGRES_COPY_OUT
  | PGRES_COPY_IN
  | PGRES_BAD_RESPONSE
  | PGRES_NONFATAL_ERROR
  | PGRES_FATAL_ERROR

text \<open>A \<open>PGconn*\<close> is an address or NULL (\<open>None\<close>); a \<open>PGresult\<close> is identified by
  its address and carries the status \<open>PQresultStatus\<close> reads.\<close>

type_synonym PGconn = nat

datatype PGresult = PGresult (res_addr: nat) (PQresultStatus: ExecStatusType)

text \<open>The calls the class makes, in the order it makes them.\<close>

datatype call =
    Called_PQconnectdb string "PGconn option"
  | Called_PQfinish "PGconn option"
  | Called_PQstatus ConnStatusType
  | Called_PQerrorMessage string
  | Called_PQsendQuery string int
  | Called_PQsendQueryParams string int
  | Called_PQsocket int
  | Called_PQconsumeInput int
  | Called_PQisBusy int
  | Called_PQgetResult "PGresult option"
  | Called_PQclear PGresult
  | Called_wall_clock_elapsed int
  | Called_select int int int "int \<times> string"

record libpq =
  connectdb_reply :: "PGconn option"
  status_replies :: "ConnStatusType list"
  errorMessage_replies :: "string list"
  sendQuery_replies :: "int list"
  socket_replies :: "int list"
  consumeInput_replies :: "int list"
  isBusy_replies :: "int list"
  getResult_replies :: "PGresult option list"
  elapsed_replies :: "int list"
  select_replies :: "(int \<times> string) list"
  calls :: "call list"

text \<open>Each primitive takes its next scripted reply and logs the call. When a script
  has run out the primitive answers as a handle with nothing more to deliver does:
  no result (\<open>PQgetResult\<close> returns NULL), not busy, failure for the others.\<close>

definition PQconnectdb :: "string \<Rightarrow> libpq \<Rightarrow> PGconn option \<times> libpq" where
  "PQconnectdb conninfo w =
     (connectdb_reply w, w\<lparr>calls := calls w @ [Called_PQconnectdb conninfo (connectdb_reply w)]\<rparr>)"

definition PQfinish :: "PGconn option \<Rightarrow> libpq \<Rightarrow> libpq" where
  "PQfinish conn w = w\<lparr>calls := calls w @ [Called_PQfinish conn]\<rparr>"

definition PQstatus :: "PGconn option \<Rightarrow> libpq \<Rightarrow> ConnStatusType \<times> libpq" where
  "PQstatus conn w =
     (case status_replies w of
        [] \<Rightarrow> (CONNECTION_BAD, w\<lparr>calls := calls w @ [Called_PQstatus CONNECTION_BAD]\<rparr>)
      | s # ss \<Rightarrow> (s, w\<lparr>status_replies := ss, calls := calls w @ [Called_PQstatus s]\<rparr>))"

definition PQerrorMessage :: "PGconn option \<Rightarrow> libpq \<Rightarrow> string \<times> libpq" where
  "PQerrorMessage conn w =
     (case errorMessage_replies w of
        [] \<Rightarrow> ('''', w\<lparr>calls := calls w @ [Called_PQerrorMessage '''']\<rparr>)
      | s # ss \<Rightarrow> (s, w\<lparr>errorMessage_replies := ss, calls := calls w @ [Called_PQerrorMessage s]\<rparr>))"

definition PQsendQuery :: "PGconn option \<Rightarrow> string \<Rightarrow> libpq \<Rightarrow> int \<times> libpq" where
  "PQsendQuery conn query w =
     (case sendQuery_replies w of
        [] \<Rightarrow> (0, w\<lparr>calls := calls w @ [Called_PQsendQuery query 0]\<rparr>)
      | r # rs \<Rightarrow> (r, w\<lparr>sendQuery_replies := rs, calls := calls w @ [Called_PQsendQuery query r]\<rparr>))"

text \<open>The class calls \<open>PQsendQueryParams(conn_, sql, 0, 0, 0, 0, 0, 1)\<close>: no
  parameters, binary results. Only the command text varies; the replies come from the
  script of \<open>PQsendQuery\<close>.\<close>

definition PQsendQueryParams :: "PGconn option \<Rightarrow> string \<Rightarrow> libpq \<Rightarrow> int \<times> libpq" where
  "PQsendQueryParams conn command w =
     (case sendQuery_replies w of
        [] \<Rightarrow> (0, w\<lparr>calls := calls w @ [Called_PQsendQueryParams command 0]\<rparr>)
      | r # rs \<Rightarrow>
          (r, w\<lparr>sendQuery_replies := rs, calls := calls w @ [Called_PQsendQueryParams command r]\<rparr>))"

definition PQsocket :: "PGconn option \<Rightarrow> libpq \<Rightarrow> int \<times> libpq" where
  "PQsocket conn w =
     (case socket_replies w of
        [] \<Rightarrow> (- 1, w\<lparr>calls := calls w @ [Called_PQsocket (- 1)]\<rparr>)
      | r # rs \<Rightarrow> (r, w\<lparr>socket_replies := rs, calls := calls w @ [Called_PQsocket r]\<rparr>))"

definition PQconsumeInput :: "PGconn option \<Rightarrow> libpq \<Rightarrow> int \<times> libpq" where
  "PQconsumeInput conn w =
     (case consumeInput_replies w of
        [] \<Rightarrow> (0, w\<lparr>calls := calls w @ [Called_PQconsumeInput 0]\<rparr>)
      | r # rs \<Rightarrow> (r, w\<lparr>consumeInput_replies := rs, calls := calls w @ [Called_PQconsumeInput r]\<rparr>))"

definition PQisBusy :: "PGconn option \<Rightarrow> libpq \<Rightarrow> int \<times> libpq" where
  "PQisBusy conn w =
     (case isBusy_replies w of
        [] \<Rightarrow> (0, w\<lparr>calls := calls w @ [Called_PQisBusy 0]\<rparr>)
      | r # rs \<Rightarrow> (r, w\<lparr>isBusy_replies := rs, calls := calls w @ [Called_PQisBusy r]\<rparr>))"

definition PQgetResult :: "PGconn option \<Rightarrow> libpq \<Rightarrow> PGresult option \<times> libpq" where
  "PQgetResult conn w =
     (case getResult_replies w of
        [] \<Rightarrow> (None, w\<lparr>calls := calls w @ [Called_PQgetResult None]\<rparr>)
      | r # rs \<Rightarrow> (r, w\<lparr>getResult_replies := rs, calls := calls w @ [Called_PQgetResult r]\<rparr>))"

definition PQclear :: "PGresult \<Rightarrow> libpq \<Rightarrow> libpq" where
  "PQclear res w = w\<lparr>calls := calls w @ [Called_PQclear res]\<rparr>"

text \<open>\<open>mapnik::timer::wall_clock_elapsed()\<close>, declared in mapnik/timer.hpp: the reading
  is the environment's. The source gets a \<open>double\<close>, in milliseconds, and converts the
  difference to \<open>int\<close>; the model takes the readings in whole milliseconds.\<close>

definition wall_clock_elapsed :: "libpq \<Rightarrow> int \<times> libpq" where
  "wall_clock_elapsed w =
     (case elapsed_replies w of
        [] \<Rightarrow> (0, w\<lparr>calls := calls w @ [Called_wall_clock_elapsed 0]\<rparr>)
      | r # rs \<Rightarrow> (r, w\<lparr>elapsed_replies := rs, calls := calls w @ [Called_wall_clock_elapsed r]\<rparr>))"

text \<open>\<open>select(nfds, &input_mask, NULL, NULL, &toutval)\<close> with \<open>toutval = {tv_sec, tv_usec}\<close>:
  the reply is the return value together with the text \<open>strerror(errno)\<close> has after it.\<close>

definition select :: "int \<Rightarrow> int \<Rightarrow> int \<Rightarrow> libpq \<Rightarrow> (int \<times> string) \<times> libpq" where
  "select nfds tv_sec tv_usec w =
     (case select_replies w of
        [] \<Rightarrow> ((- 1, ''''), w\<lparr>calls := calls w @ [Called_select nfds tv_sec tv_usec (- 1, '''')]\<rparr>)
      | r # rs \<Rightarrow>
          (r, w\<lparr>select_replies := rs, calls := calls w @ [Called_select nfds tv_sec tv_usec r]\<rparr>))"

subsection \<open>The class\<close>

text \<open>The private members. An Isabelle name cannot end in an underscore, so the
  members \<^verbatim>\<open>conn_\<close>, \<^verbatim>\<open>closed_\<close>, \<^verbatim>\<open>pending_\<close> and \<^verbatim>\<open>statement_timeout_\<close> carry the
  suffix \<open>m\<close>. \<open>cursorId\<close> is a C++ \<open>int\<close>: 32 bits, read as two's complement
  by \<open>sint\<close>.\<close>

record Connection =
  conn_m :: "PGconn option"
  cursorId :: "32 word"
  closed_m :: bool
  pending_m :: bool
  statement_timeout_m :: int

datatype exn = datasource_exception (what: string)

datatype ResultSet = ResultSet (res: "PGresult option")

abbreviation quote :: char where
  "quote \<equiv> CHR 0x27"

abbreviation newline :: char where
  "newline \<equiv> CHR 0x0A"

definition close :: "Connection \<Rightarrow> libpq \<Rightarrow> Connection \<times> libpq" where
  "close c w =
     (if \<not> closed_m c then (c\<lparr>closed_m := True\<rparr>, PQfinish (conn_m c) w) else (c, w))"

text \<open>The destructor \<open>~Connection()\<close> has the body of \<open>close()\<close>.\<close>

definition Connection_dtor :: "Connection \<Rightarrow> libpq \<Rightarrow> Connection \<times> libpq" where
  "Connection_dtor c w =
     (if \<not> closed_m c then (c\<lparr>closed_m := True\<rparr>, PQfinish (conn_m c) w) else (c, w))"

text \<open>\<^verbatim>\<open>(!closed_) && (PQstatus(conn_) != CONNECTION_BAD)\<close>: the handle is not asked
  once \<^verbatim>\<open>closed_\<close> is set.\<close>

definition isOK :: "Connection \<Rightarrow> libpq \<Rightarrow> bool \<times> libpq" where
  "isOK c w =
     (if closed_m c then (False, w)
      else (let (st, w1) = PQstatus (conn_m c) w in (st \<noteq> CONNECTION_BAD, w1)))"

definition isPending :: "Connection \<Rightarrow> bool" where
  "isPending c = pending_m c"

definition status :: "Connection \<Rightarrow> libpq \<Rightarrow> string \<times> libpq" where
  "status c w =
     (if conn_m c \<noteq> None then
        (let (ok, w1) = isOK c w in
         if ok then PQerrorMessage (conn_m c) w1 else (''Bad connection'', w1))
      else (''Uninitialized connection'', w))"

text \<open>The constructor. \<open>password\<close> is a \<open>boost::optional<std::string>\<close>. A constructor
  that throws leaves no object behind: the failure returns the exception only.\<close>

definition Connection_ctor :: "string \<Rightarrow> string option \<Rightarrow> libpq \<Rightarrow> (exn + Connection) \<times> libpq" where
  "Connection_ctor connection_str password w =
     (let connect_with_pass =
            (case password of
               None \<Rightarrow> connection_str
             | Some p \<Rightarrow> if p \<noteq> [] then connection_str @ '' password='' @ p else connection_str);
          (h, w1) = PQconnectdb connect_with_pass w;
          c = \<lparr>conn_m = h, cursorId = 0, closed_m = False, pending_m = False,
               statement_timeout_m = 4000\<rparr>;
          (st, w2) = PQstatus (conn_m c) w1
      in if st \<noteq> CONNECTION_OK then
           (let (s, w3) = status c w2;
                err_msg = ''Postgis Plugin: '' @ s @ [newline] @ ''Connection string: '' @ [quote]
                            @ connection_str @ [quote, newline];
                (c1, w4) = close c w3
            in (Inl (datasource_exception err_msg), w4))
         else (Inr c, w2))"

text \<open>The constructor of the second variant of the class (src/unnamed/part\_000): the same,
  but it has no \<open>pending_\<close> member (kept \<open>False\<close> here) and throws without calling
  \<open>close()\<close>.\<close>

definition Connection_ctor_part_000 ::
  "string \<Rightarrow> string option \<Rightarrow> libpq \<Rightarrow> (exn + Connection) \<times> libpq" where
  "Connection_ctor_part_000 connection_str password w =
     (let connect_with_pass =
            (case password of
               None \<Rightarrow> connection_str
             | Some p \<Rightarrow> if p \<noteq> [] then connection_str @ '' password='' @ p else connection_str);
          (h, w1) = PQconnectdb connect_with_pass w;
          c = \<lparr>conn_m = h, cursorId = 0, closed_m = False, pending_m = False,
               statement_timeout_m = 4000\<rparr>;
          (st, w2) = PQstatus (conn_m c) w1
      in if st \<noteq> CONNECTION_OK then
           (let (s, w3) = status c w2;
                err_msg = ''Postgis Plugin: '' @ s @ [newline] @ ''Connection string: '' @ [quote]
                            @ connection_str @ [quote, newline]
            in (Inl (datasource_exception err_msg), w3))
         else (Inr c, w2))"

subsection \<open>execute\<close>

text \<open>The loop \<open>while (PGresult *result = PQgetResult(conn_)) { ok = ...; PQclear(result); }\<close>.\<close>

function execute_loop :: "PGconn option \<Rightarrow> bool \<Rightarrow> libpq \<Rightarrow> bool \<times> libpq" where
  "execute_loop conn ok w =
     (case PQgetResult conn w of
        (None, w1) \<Rightarrow> (ok, w1)
      | (Some result, w1) \<Rightarrow>
          execute_loop conn (PQresultStatus result = PGRES_COMMAND_OK) (PQclear result w1))"
  by pat_completeness auto

termination
  by (relation "measure (\<lambda>(conn, ok, w). length (getResult_replies w))")
     (auto simp: PQgetResult_def PQclear_def split: list.splits)

declare execute_loop.simps [simp del]

definition execute :: "string \<Rightarrow> Connection \<Rightarrow> libpq \<Rightarrow> bool \<times> libpq" where
  "execute sql c w =
     (let (sent, w1) = PQsendQuery (conn_m c) sql w
      in if sent = 0 then (False, w1) else execute_loop (conn_m c) False w1)"

subsection \<open>executeQuery\<close>

text \<open>The body of \<open>if (PQisBusy(conn_)) { ... }\<close> inside the do-while: the budget
  \<open>msleft\<close>, the call of \<open>select\<close> and, when \<open>ret < 1\<close>, \<open>close()\<close> and the exception
  (\<open>Some\<close>). \<open>None\<close>: the block ran to its end.\<close>

definition executeQuery_wait ::
  "string \<Rightarrow> int \<Rightarrow> Connection \<Rightarrow> libpq \<Rightarrow> exn option \<times> Connection \<times> libpq" where
  "executeQuery_wait sql sock c w =
     (let (busy, w1) = PQisBusy (conn_m c) w
      in if busy \<noteq> 0 then
           (let (elapsed, w2) = wall_clock_elapsed w1;
                msleft = statement_timeout_m c - elapsed;
                ((ret, strerror_errno), w3) = select (sock + 1) 0 (msleft * 1000) w2
            in if ret < 1 then
                 (let ss = ''Postgis Plugin: ''
                             @ (if ret = 0 then ''timeout '' else ''select: '' @ strerror_errno)
                             @ [newline] @ ''in executeQuery Full sql was: '' @ [quote] @ sql
                             @ [quote, newline];
                      (c1, w4) = close c w3
                  in (Some (datasource_exception ss), c1, w4))
               else (None, c, w3))
         else (None, c, w1))"

text \<open>The loop \<open>do { success = PQconsumeInput(conn_); if (!success) break; ... } while (PQisBusy(conn_))\<close>.
  \<open>Inl\<close>: the exception thrown inside; \<open>Inr success\<close>: the loop was left, by \<open>break\<close>
  (\<open>success = 0\<close>) or by its condition.\<close>

function executeQuery_do_while ::
  "string \<Rightarrow> int \<Rightarrow> Connection \<Rightarrow> libpq \<Rightarrow> (exn + int) \<times> Connection \<times> libpq" where
  "executeQuery_do_while sql sock c w =
     (let (success, w1) = PQconsumeInput (conn_m c) w
      in if success = 0 then (Inr success, c, w1)
         else
           (case executeQuery_wait sql sock c w1 of
              (Some e, c1, w2) \<Rightarrow> (Inl e, c1, w2)
            | (None, c1, w2) \<Rightarrow>
                (let (busy, w3) = PQisBusy (conn_m c1) w2
                 in if busy \<noteq> 0 then executeQuery_do_while sql sock c1 w3
                    else (Inr success, c1, w3))))"
  by pat_completeness auto

termination
  by (relation "measure (\<lambda>(sql, sock, c, w). length (isBusy_replies w))")
     (auto simp: PQconsumeInput_def PQisBusy_def executeQuery_wait_def wall_clock_elapsed_def
        select_def close_def PQfinish_def Let_def
        split: list.splits if_splits prod.splits)

declare executeQuery_do_while.simps [simp del]

text \<open>The outer \<open>while (true)\<close>, with the locals \<open>ok\<close> and \<open>result\<close>. \<open>Inl\<close>: the
  exception thrown by the wait; \<open>Inr (ok, result)\<close>: the locals when the loop is left by
  one of its two \<open>break\<close>s.\<close>

function executeQuery_loop ::
  "string \<Rightarrow> int \<Rightarrow> bool \<Rightarrow> PGresult option \<Rightarrow> Connection \<Rightarrow> libpq
     \<Rightarrow> (exn + bool \<times> PGresult option) \<times> Connection \<times> libpq" where
  "executeQuery_loop sql sock ok result c w =
     (case executeQuery_do_while sql sock c w of
        (Inl e, c1, w1) \<Rightarrow> (Inl e, c1, w1)
      | (Inr success, c1, w1) \<Rightarrow>
          if success = 0 then (Inr (False, result), c1, w1)
          else
            (let (tmp, w2) = PQgetResult (conn_m c1) w1
             in case tmp of
                  None \<Rightarrow> (Inr (ok, result), c1, w2)
                | Some t \<Rightarrow>
                    (let ok' = (PQresultStatus t = PGRES_TUPLES_OK);
                         w3 = (case result of Some r \<Rightarrow> PQclear r w2 | None \<Rightarrow> w2)
                     in executeQuery_loop sql sock ok' (Some t) c1 w3)))"
  by pat_completeness auto

termination
proof (relation "measure (\<lambda>(sql, sock, ok, result, c, w). length (getResult_replies w))")
  show "wf (measure (\<lambda>(sql, sock, ok, result, c, w). length (getResult_replies w)))"
    by simp
next
  have wait: "getResult_replies w1 = getResult_replies w"
    if "executeQuery_wait sql sock c w = (r, c1, w1)" for sql sock c w r c1 w1
    using that
    by (auto simp: PQisBusy_def executeQuery_wait_def wall_clock_elapsed_def
          select_def close_def PQfinish_def Let_def
          split: list.splits if_splits prod.splits)
  have do_while: "getResult_replies w1 = getResult_replies w"
    if "executeQuery_do_while sql sock c w = (r, c1, w1)" for sql sock c w r c1 w1
    using that
  proof (induction sql sock c w arbitrary: r c1 w1 rule: executeQuery_do_while.induct)
    case (1 sql sock c w)
    obtain success wa where ci: "PQconsumeInput (conn_m c) w = (success, wa)"
      by (cases "PQconsumeInput (conn_m c) w")
    have wa: "getResult_replies wa = getResult_replies w"
      using ci by (auto simp: PQconsumeInput_def split: list.splits)
    show ?case
    proof (cases "success = 0")
      case True
      with "1.prems" ci wa show ?thesis
        by (simp add: executeQuery_do_while.simps [of sql sock c w])
    next
      case False
      obtain e cb wb where wt: "executeQuery_wait sql sock c wa = (e, cb, wb)"
        by (cases "executeQuery_wait sql sock c wa")
      have wb: "getResult_replies wb = getResult_replies wa"
        using wt by (rule wait)
      obtain busy wc where ib: "PQisBusy (conn_m cb) wb = (busy, wc)"
        by (cases "PQisBusy (conn_m cb) wb")
      have wc: "getResult_replies wc = getResult_replies wb"
        using ib by (auto simp: PQisBusy_def split: list.splits)
      show ?thesis
      proof (cases e)
        case (Some x)
        with "1.prems" ci wt False wa wb show ?thesis
          by (simp add: executeQuery_do_while.simps [of sql sock c w])
      next
        case None
        show ?thesis
        proof (cases "busy = 0")
          case True
          with "1.prems" ci wt ib False None wa wb wc show ?thesis
            by (simp add: executeQuery_do_while.simps [of sql sock c w])
        next
          case busy: False
          from "1.prems" ci wt ib False None busy
          have "executeQuery_do_while sql sock cb wc = (r, c1, w1)"
            by (simp add: executeQuery_do_while.simps [of sql sock c w])
          then have "getResult_replies w1 = getResult_replies wc"
            by (rule "1.IH" [OF ci [symmetric] refl False wt [symmetric] None refl
                  ib [symmetric] refl busy])
          with wa wb wc show ?thesis by simp
        qed
      qed
    qed
  qed
  fix sql :: string and sock :: int and ok :: bool and result :: "PGresult option"
    and c :: Connection and w :: libpq and x1 :: "exn + int" and x2 :: "Connection \<times> libpq"
    and success :: int and c1 :: Connection and w1 :: libpq
    and x3 :: "PGresult option \<times> libpq" and tmp :: "PGresult option" and w2 t ok' w3
  assume dw: "(x1, x2) = executeQuery_do_while sql sock c w"
    and x1: "x1 = Inr success" and x2: "(c1, w1) = x2"
    and x3: "x3 = PQgetResult (conn_m c1) w1" "(tmp, w2) = x3"
    and t: "tmp = Some t"
    and w3: "w3 = (case result of None \<Rightarrow> w2 | Some r \<Rightarrow> PQclear r w2)"
  from dw x1 x2 have "executeQuery_do_while sql sock c w = (Inr success, c1, w1)"
    by simp
  then have "getResult_replies w1 = getResult_replies w"
    by (rule do_while)
  moreover from x3 t have "length (getResult_replies w2) < length (getResult_replies w1)"
    by (auto simp: PQgetResult_def split: list.splits)
  moreover from w3 have "getResult_replies w3 = getResult_replies w2"
    by (auto simp: PQclear_def split: option.splits)
  ultimately show "((sql, sock, ok', Some t, c1, w3), sql, sock, ok, result, c, w)
      \<in> measure (\<lambda>(sql, sock, ok, result, c, w). length (getResult_replies w))"
    by simp
qed

declare executeQuery_loop.simps [simp del]

definition executeQuery ::
  "string \<Rightarrow> int \<Rightarrow> Connection \<Rightarrow> libpq \<Rightarrow> (exn + ResultSet) \<times> Connection \<times> libpq" where
  "executeQuery sql type c w =
     (let (sent, w1) =
            (if type = 1 then PQsendQueryParams (conn_m c) sql w else PQsendQuery (conn_m c) sql w);
          (sock, w2) = PQsocket (conn_m c) w1;
          success = (if sock < 0 then 0 else sent)
      in if success = 0 then
           (let (s, w3) = status c w2;
                err_msg = ''Postgis Plugin: '' @ s @ [newline] @ ''in executeQuery Full sql was: ''
                            @ [quote] @ sql @ [quote, newline]
            in (Inl (datasource_exception err_msg), c, w3))
         else
           (case executeQuery_loop sql sock False None c w2 of
              (Inl e, c1, w3) \<Rightarrow> (Inl e, c1, w3)
            | (Inr (ok, result), c1, w3) \<Rightarrow>
                if \<not> ok then
                  (let (s, w4) = status c1 w3;
                       err_msg = ''Postgis Plugin: '' @ s @ [newline]
                                   @ ''in executeQuery Full sql was: '' @ [quote] @ sql
                                   @ [quote, newline];
                       w5 = (case result of Some r \<Rightarrow> PQclear r w4 | None \<Rightarrow> w4)
                   in (Inl (datasource_exception err_msg), c1, w5))
                else (Inr (ResultSet result), c1, w3)))"

subsection \<open>The asynchronous protocol\<close>

text \<open>The loop of \<open>clearAsyncResult\<close>: \<open>while (result) { PQclear(result); result = PQgetResult(conn_); }\<close>.\<close>

function clearAsyncResult_loop :: "PGconn option \<Rightarrow> PGresult option \<Rightarrow> libpq \<Rightarrow> libpq" where
  "clearAsyncResult_loop conn result w =
     (case result of
        None \<Rightarrow> w
      | Some r \<Rightarrow>
          (let w1 = PQclear r w;
               (result', w2) = PQgetResult conn w1
           in clearAsyncResult_loop conn result' w2))"
  by pat_completeness auto

termination
  by (relation "measure (\<lambda>(conn, result, w).
         (case result of None \<Rightarrow> 0 | Some r \<Rightarrow> Suc (length (getResult_replies w))))")
     (auto simp: PQgetResult_def PQclear_def split: list.splits option.splits)

declare clearAsyncResult_loop.simps [simp del]

definition clearAsyncResult :: "PGresult option \<Rightarrow> Connection \<Rightarrow> libpq \<Rightarrow> Connection \<times> libpq" where
  "clearAsyncResult result c w =
     (c\<lparr>pending_m := False\<rparr>, clearAsyncResult_loop (conn_m c) result w)"

definition executeAsyncQuery ::
  "string \<Rightarrow> int \<Rightarrow> Connection \<Rightarrow> libpq \<Rightarrow> (exn + bool) \<times> Connection \<times> libpq" where
  "executeAsyncQuery sql type c w =
     (let (result, w1) =
            (if type = 1 then PQsendQueryParams (conn_m c) sql w else PQsendQuery (conn_m c) sql w)
      in if result \<noteq> 1 then
           (let (s, w2) = status c w1;
                err_msg = ''Postgis Plugin: '' @ s @ [newline] @ ''in executeAsyncQuery Full sql was: ''
                            @ [quote] @ sql @ [quote, newline];
                (r, w3) = PQgetResult (conn_m c) w2;
                (c1, w4) = clearAsyncResult r c w3;
                (c2, w5) = close c1 w4
            in (Inl (datasource_exception err_msg), c2, w5))
         else (Inr (result \<noteq> 0), c\<lparr>pending_m := True\<rparr>, w1))"

definition getNextAsyncResult :: "Connection \<Rightarrow> libpq \<Rightarrow> (exn + ResultSet) \<times> Connection \<times> libpq" where
  "getNextAsyncResult c w =
     (let (result, w1) = PQgetResult (conn_m c) w
      in if result \<noteq> None \<and> PQresultStatus (the result) \<noteq> PGRES_TUPLES_OK then
           (let (s, w2) = status c w1;
                err_msg = ''Postgis Plugin: '' @ s @ [newline] @ ''in getNextAsyncResult'';
                (c1, w3) = clearAsyncResult result c w2;
                (c2, w4) = close c1 w3
            in (Inl (datasource_exception err_msg), c2, w4))
         else (Inr (ResultSet result), c, w1))"

definition getAsyncResult :: "Connection \<Rightarrow> libpq \<Rightarrow> (exn + ResultSet) \<times> Connection \<times> libpq" where
  "getAsyncResult c w =
     (let (result, w1) = PQgetResult (conn_m c) w
      in if result = None \<or> PQresultStatus (the result) \<noteq> PGRES_TUPLES_OK then
           (let (s, w2) = status c w1;
                err_msg = ''Postgis Plugin: '' @ s @ [newline] @ ''in getAsyncResult'';
                (c1, w3) = clearAsyncResult result c w2;
                (c2, w4) = close c1 w3
            in (Inl (datasource_exception err_msg), c2, w4))
         else (Inr (ResultSet result), c, w1))"

subsection \<open>new\_cursor\_name\<close>

text \<open>\<open>s << n\<close> for an \<open>int\<close>: the decimal digits, with a minus sign for a negative number.\<close>

definition digit_char :: "nat \<Rightarrow> char" where
  "digit_char d = char_of (48 + d)"

fun show_nat :: "nat \<Rightarrow> string" where
  "show_nat n = (if n < 10 then [digit_char n] else show_nat (n div 10) @ [digit_char (n mod 10)])"

declare show_nat.simps [simp del]

definition show_int :: "int \<Rightarrow> string" where
  "show_int i = (if i < 0 then CHR ''-'' # show_nat (nat (- i)) else show_nat (nat i))"

text \<open>\<open>cursorId++\<close> on the 32-bit counter: the name is made from the value before the
  increment, and the increment wraps around.\<close>

definition new_cursor_name :: "Connection \<Rightarrow> string \<times> Connection" where
  "new_cursor_name c =
     (''mapnik_'' @ show_int (sint (cursorId c)), c\<lparr>cursorId := cursorId c + 1\<rparr>)"

subsection \<open>Reading the log; the runs used as examples\<close>

text \<open>The results a stretch of the log obtained from the handle (the non-NULL returns of
  \<open>PQgetResult\<close>) and the results it released (the arguments of \<open>PQclear\<close>), in
  order.\<close>

fun obtained :: "call list \<Rightarrow> PGresult list" where
  "obtained [] = []"
| "obtained (Called_PQgetResult (Some r) # cs) = r # obtained cs"
| "obtained (x # cs) = obtained cs"

fun released :: "call list \<Rightarrow> PGresult list" where
  "released [] = []"
| "released (Called_PQclear r # cs) = r # released cs"
| "released (x # cs) = released cs"

text \<open>The calls a loop makes while it drains the results \<open>rs\<close>, releasing each.\<close>

fun get_and_clear :: "PGresult option list \<Rightarrow> call list" where
  "get_and_clear [] = []"
| "get_and_clear (None # rs) = get_and_clear rs"
| "get_and_clear (Some r # rs) = Called_PQgetResult (Some r) # Called_PQclear r # get_and_clear rs"

text \<open>The results queued in the handle: what \<open>PQgetResult\<close> will return before its
  first NULL.\<close>

definition queued :: "libpq \<Rightarrow> PGresult option list" where
  "queued w = takeWhile (\<lambda>r. r \<noteq> None) (getResult_replies w)"

text \<open>An open connection as the constructor leaves it, and a handle that accepts a
  query, is busy once, and then delivers a command status followed by rows.\<close>

definition ex_conn :: Connection where
  "ex_conn = \<lparr>conn_m = Some 1, cursorId = 0, closed_m = False, pending_m = False,
     statement_timeout_m = 4000\<rparr>"

definition ex_libpq :: libpq where
  "ex_libpq = \<lparr>connectdb_reply = Some 1, status_replies = [CONNECTION_OK, CONNECTION_OK],
     errorMessage_replies = [''syntax error''], sendQuery_replies = [1], socket_replies = [5],
     consumeInput_replies = [1, 1, 1], isBusy_replies = [1, 0, 0, 0],
     getResult_replies = [Some (PGresult 1 PGRES_COMMAND_OK), Some (PGresult 2 PGRES_TUPLES_OK)],
     elapsed_replies = [7], select_replies = [(1, '''')], calls = []\<rparr>"

text \<open>What every failing asynchronous call has done when it throws.\<close>

definition async_failure :: "Connection \<Rightarrow> libpq \<Rightarrow> Connection \<Rightarrow> libpq \<Rightarrow> bool" where
  "async_failure c w c' w' =
     (\<exists>new. calls w' = calls w @ new @ (if closed_m c then [] else [Called_PQfinish (conn_m c)])
        \<and> obtained new = map the (queued w)
        \<and> released new = map the (queued w)
        \<and> getResult_replies w' = drop (Suc (length (queued w))) (getResult_replies w)
        \<and> \<not> pending_m c' \<and> closed_m c')"

text \<open>What a failing asynchronous call, started on \<open>c\<close> and \<open>w\<close>, has done when it
  throws with the object \<open>c'\<close> and the environment \<open>w'\<close>.\<close>

definition cleaned_up :: "Connection \<Rightarrow> libpq \<Rightarrow> Connection \<Rightarrow> libpq \<Rightarrow> bool" where
  "cleaned_up c w c' w' =
     (take (length (calls w)) (calls w') = calls w
      \<and> obtained (drop (length (calls w)) (calls w')) = map the (queued w)
      \<and> released (drop (length (calls w)) (calls w')) = map the (queued w)
      \<and> getResult_replies w' = drop (Suc (length (queued w))) (getResult_replies w)
      \<and> \<not> pending_m c' \<and> closed_m c'
      \<and> (\<not> closed_m c \<longrightarrow> last (calls w') = Called_PQfinish (conn_m c)))"

text \<open>A handle that rejects the submission while results are still queued.\<close>

definition ex_rejected :: libpq where
  "ex_rejected = ex_libpq\<lparr>sendQuery_replies := [0]\<rparr>"

text \<open>A handle whose only result has rows; the state after a query was submitted to it
  asynchronously; a connection with an operation pending.\<close>

definition ex_rows :: libpq where
  "ex_rows = ex_libpq\<lparr>getResult_replies := [Some (PGresult 1 PGRES_TUPLES_OK), None]\<rparr>"

definition ex_submitted :: "Connection \<times> libpq" where
  "ex_submitted = snd (executeAsyncQuery ''SELECT 1'' 0 ex_conn ex_rows)"

definition ex_pending :: Connection where
  "ex_pending = ex_conn\<lparr>pending_m := True\<rparr>"

text \<open>\<open>n\<close> consecutive calls of \<open>new_cursor_name()\<close> on one connection: the names, in
  the order returned, and the object after the last call.\<close>

fun cursor_names :: "nat \<Rightarrow> Connection \<Rightarrow> string list \<times> Connection" where
  "cursor_names 0 c = ([], c)"
| "cursor_names (Suc n) c =
     (let (s, c1) = new_cursor_name c;
          (ss, c2) = cursor_names n c1
      in (s # ss, c2))"

text \<open>Reading a decimal numeral back, to tell two of them apart.\<close>

definition read_nat :: "string \<Rightarrow> nat" where
  "read_nat s = foldl (\<lambda>a ch. 10 * a + (of_char ch - 48)) 0 s"

text \<open>The string handed to \<open>PQconnectdb\<close>.\<close>

definition connect_with_pass :: "string \<Rightarrow> string option \<Rightarrow> string" where
  "connect_with_pass connection_str password =
     (case password of
        None \<Rightarrow> connection_str
      | Some p \<Rightarrow> if p \<noteq> [] then connection_str @ '' password='' @ p else connection_str)"

text \<open>What \<open>status()\<close> returns inside the failing constructor, read off the scripts: the
  constructor has taken the first reply of \<open>PQstatus\<close>, \<open>isOK()\<close> takes the second.\<close>

definition ctor_status_text :: "libpq \<Rightarrow> string" where
  "ctor_status_text w =
     (if connectdb_reply w = None then ''Uninitialized connection''
      else if (case drop 1 (status_replies w) of [] \<Rightarrow> CONNECTION_BAD | s # ss \<Rightarrow> s) \<noteq> CONNECTION_BAD
      then (case errorMessage_replies w of [] \<Rightarrow> [] | m # ms \<Rightarrow> m)
      else ''Bad connection'')"

text \<open>A server that refuses the connection.\<close>

definition ex_refused :: libpq where
  "ex_refused = ex_libpq\<lparr>status_replies := [CONNECTION_BAD, CONNECTION_BAD],
     errorMessage_replies := [''could not connect to server'']\<rparr>"

text \<open>A call of \<open>select\<close> that returned \<open>ret < 1\<close>; a stretch of the log without
  one.\<close>

fun select_failed :: "call \<Rightarrow> bool" where
  "select_failed (Called_select nfds tv_sec tv_usec (ret, etext)) = (ret < 1)"
| "select_failed x = False"

definition nofail :: "call list \<Rightarrow> bool" where
  "nofail cs = list_all (\<lambda>x. \<not> select_failed x) cs"

text \<open>Calls that obtain no result, release none and hold no failed wait.\<close>

definition silent :: "call list \<Rightarrow> bool" where
  "silent cs = (obtained cs = [] \<and> released cs = [] \<and> nofail cs)"

text \<open>The text streamed into \<open>ss\<close> when \<open>select\<close> returned \<open>ret < 1\<close>.\<close>

definition wait_text :: "string \<Rightarrow> int \<Rightarrow> string \<Rightarrow> string" where
  "wait_text sql ret strerror_errno =
     ''Postgis Plugin: '' @ (if ret = 0 then ''timeout '' else ''select: '' @ strerror_errno)
       @ [newline] @ ''in executeQuery Full sql was: '' @ [quote] @ sql @ [quote, newline]"

text \<open>The calls \<open>new\<close> end in a failed wait followed by \<open>close()\<close>, and \<open>e\<close> is the
  exception thrown for it.\<close>

definition wait_throw :: "string \<Rightarrow> Connection \<Rightarrow> call list \<Rightarrow> exn \<Rightarrow> Connection \<Rightarrow> bool" where
  "wait_throw sql c new e c1 =
     (\<exists>before nfds tv_sec tv_usec ret etext.
        new = before @ Called_select nfds tv_sec tv_usec (ret, etext)
                # (if closed_m c then [] else [Called_PQfinish (conn_m c)])
        \<and> nofail before \<and> ret < 1
        \<and> e = datasource_exception (wait_text sql ret etext)
        \<and> c1 = c\<lparr>closed_m := True\<rparr>)"

text \<open>The result held in the local \<open>result\<close>, as a list.\<close>

definition held :: "PGresult option \<Rightarrow> PGresult list" where
  "held result = (case result of None \<Rightarrow> [] | Some r \<Rightarrow> [r])"

text \<open>A handle that stays busy until the wait expires.\<close>

definition ex_timeout :: libpq where
  "ex_timeout = ex_libpq\<lparr>select_replies := [(0, [])]\<rparr>"

text \<open>A handle whose only result is a command status.\<close>

definition ex_command :: libpq where
  "ex_command = ex_libpq\<lparr>getResult_replies := [Some (PGresult 1 PGRES_COMMAND_OK)]\<rparr>"

section \<open>Properties\<close>

lemma obtained_append: "obtained (xs @ ys) = obtained xs @ obtained ys"
  by (induction xs rule: obtained.induct) simp_all

lemma released_append: "released (xs @ ys) = released xs @ released ys"
  by (induction xs rule: released.induct) simp_all

lemma obtained_get_and_clear: "obtained (get_and_clear rs) = map the (filter (\<lambda>r. r \<noteq> None) rs)"
  by (induction rs rule: get_and_clear.induct) simp_all

lemma released_get_and_clear: "released (get_and_clear rs) = map the (filter (\<lambda>r. r \<noteq> None) rs)"
  by (induction rs rule: get_and_clear.induct) simp_all

subsection \<open>close\<close>

lemma close_closed: "closed_m c \<Longrightarrow> close c w = (c, w)"
  by (simp add: close_def)

lemma close_funpow: "closed_m c \<Longrightarrow> (case_prod close ^^ n) (c, w) = (c, w)"
  by (induction n) (simp_all add: close_def)

text \<open>C7. \<open>close()\<close> is idempotent. On a connection that is not closed, the first
  call releases the handle once (one \<open>PQfinish\<close> is logged) and sets \<open>closed_\<close>; the
  destructor, when \<open>close()\<close> was never called, does the same. Any number \<open>n\<close> of
  further calls of \<open>close()\<close>, and the destructor after them, leave the object and the
  environment as the first call left them: the handle is released exactly once.\<close>

theorem close_idempotent:
  assumes "\<not> closed_m c"
  shows "close c w = (c\<lparr>closed_m := True\<rparr>, w\<lparr>calls := calls w @ [Called_PQfinish (conn_m c)]\<rparr>)
    \<and> Connection_dtor c w = close c w
    \<and> (case_prod close ^^ n) (close c w) = close c w
    \<and> case_prod Connection_dtor ((case_prod close ^^ n) (close c w)) = close c w
    \<and> count_list (calls (snd ((case_prod close ^^ n) (close c w)))) (Called_PQfinish (conn_m c))
        = Suc (count_list (calls w) (Called_PQfinish (conn_m c)))"
proof -
  have first: "close c w = (c\<lparr>closed_m := True\<rparr>, w\<lparr>calls := calls w @ [Called_PQfinish (conn_m c)]\<rparr>)"
    using assms by (simp add: close_def PQfinish_def)
  have dtor: "Connection_dtor c w = close c w"
    by (simp add: close_def Connection_dtor_def)
  have again: "(case_prod close ^^ n) (close c w) = close c w"
    unfolding first by (rule close_funpow) simp
  have dtor_after: "case_prod Connection_dtor ((case_prod close ^^ n) (close c w)) = close c w"
    unfolding again unfolding first by (simp add: Connection_dtor_def)
  have once: "count_list (calls (snd ((case_prod close ^^ n) (close c w)))) (Called_PQfinish (conn_m c))
        = Suc (count_list (calls w) (Called_PQfinish (conn_m c)))"
    unfolding again unfolding first by simp
  from first dtor again dtor_after once show ?thesis by blast
qed

theorem close_idempotent_witness:
  "\<not> closed_m ex_conn
   \<and> close ex_conn ex_libpq = (ex_conn\<lparr>closed_m := True\<rparr>, ex_libpq\<lparr>calls := [Called_PQfinish (Some 1)]\<rparr>)
   \<and> (case_prod close ^^ 3) (close ex_conn ex_libpq) = close ex_conn ex_libpq
   \<and> count_list (calls (snd ((case_prod close ^^ 3) (close ex_conn ex_libpq)))) (Called_PQfinish (Some 1)) = 1"
proof -
  have h: "\<not> closed_m ex_conn" by (simp add: ex_conn_def)
  show ?thesis
    using h close_idempotent [OF h, of ex_libpq 3]
    by (simp add: ex_conn_def ex_libpq_def eval_nat_numeral close_def)
qed

subsection \<open>execute\<close>

lemma execute_loop_eq:
  "execute_loop conn ok w =
     (if queued w = [] then ok else PQresultStatus (the (last (queued w))) = PGRES_COMMAND_OK,
      w\<lparr>getResult_replies := drop (Suc (length (queued w))) (getResult_replies w),
        calls := calls w @ get_and_clear (queued w) @ [Called_PQgetResult None]\<rparr>)"
proof (induction "getResult_replies w" arbitrary: ok w)
  case Nil
  from Nil [symmetric] show ?case
    by (simp add: execute_loop.simps [of conn ok w] PQgetResult_def queued_def)
next
  case (Cons x xs)
  note w = Cons.hyps(2) [symmetric]
  show ?case
  proof (cases x)
    case None
    with w show ?thesis
      by (simp add: execute_loop.simps [of conn ok w] PQgetResult_def queued_def)
  next
    case (Some r)
    define w' where "w' = PQclear r (w\<lparr>getResult_replies := xs, calls := calls w @ [Called_PQgetResult x]\<rparr>)"
    have xs: "xs = getResult_replies w'"
      by (simp add: w'_def PQclear_def)
    have step: "execute_loop conn ok w = execute_loop conn (PQresultStatus r = PGRES_COMMAND_OK) w'"
      using w Some by (simp add: execute_loop.simps [of conn ok w] PQgetResult_def w'_def)
    have q: "queued w = Some r # queued w'"
      using w Some by (simp add: queued_def w'_def PQclear_def)
    show ?thesis
      unfolding step Cons.hyps(1) [OF xs] q
      using w Some by (simp add: w'_def PQclear_def)
  qed
qed

text \<open>C6. \<open>execute(sql)\<close> returns a \<open>bool\<close> and cannot throw. When \<open>PQsendQuery\<close>
  rejects the command (returns 0) the result is \<open>false\<close> and nothing else is called.
  Otherwise every queued result (the replies of \<open>PQgetResult\<close> up to the first NULL) is
  retrieved and released at once, in turn, until \<open>PQgetResult\<close> returns NULL; the value is
  \<open>true\<close> exactly when there was a result and the last one has the status
  \<open>PGRES_COMMAND_OK\<close>.\<close>

theorem execute_drains:
  assumes "PQsendQuery (conn_m c) sql w = (sent, w1)"
  shows "(sent = 0 \<longrightarrow> execute sql c w = (False, w1))
    \<and> (sent \<noteq> 0 \<longrightarrow>
         fst (execute sql c w)
           = (queued w \<noteq> [] \<and> PQresultStatus (the (last (queued w))) = PGRES_COMMAND_OK)
         \<and> calls (snd (execute sql c w))
           = calls w1 @ get_and_clear (queued w) @ [Called_PQgetResult None]
         \<and> released (get_and_clear (queued w)) = obtained (get_and_clear (queued w))
         \<and> obtained (get_and_clear (queued w)) = map the (queued w)
         \<and> getResult_replies (snd (execute sql c w))
           = drop (Suc (length (queued w))) (getResult_replies w))"
proof -
  have q: "queued w1 = queued w" and g: "getResult_replies w1 = getResult_replies w"
    using assms by (auto simp: PQsendQuery_def queued_def split: list.splits)
  have f: "filter (\<lambda>r. r \<noteq> None) (queued w) = queued w"
    unfolding queued_def by (rule filter_True) (auto dest: set_takeWhileD)
  show ?thesis
    using assms q g f
    by (simp add: execute_def execute_loop_eq obtained_get_and_clear released_get_and_clear)
qed

theorem execute_drains_witness:
  "execute ''bogus'' ex_conn (ex_libpq\<lparr>sendQuery_replies := [0]\<rparr>)
     = (False, ex_libpq\<lparr>sendQuery_replies := [], calls := [Called_PQsendQuery ''bogus'' 0]\<rparr>)
   \<and> fst (execute ''CREATE TABLE t (a int)'' ex_conn
        (ex_libpq\<lparr>getResult_replies := [Some (PGresult 1 PGRES_COMMAND_OK)]\<rparr>))
   \<and> calls (snd (execute ''CREATE TABLE t (a int)'' ex_conn
        (ex_libpq\<lparr>getResult_replies := [Some (PGresult 1 PGRES_COMMAND_OK)]\<rparr>)))
       = [Called_PQsendQuery ''CREATE TABLE t (a int)'' 1,
          Called_PQgetResult (Some (PGresult 1 PGRES_COMMAND_OK)),
          Called_PQclear (PGresult 1 PGRES_COMMAND_OK), Called_PQgetResult None]"
proof -
  have a: "PQsendQuery (conn_m ex_conn) ''bogus'' (ex_libpq\<lparr>sendQuery_replies := [0]\<rparr>)
      = (0, ex_libpq\<lparr>sendQuery_replies := [], calls := [Called_PQsendQuery ''bogus'' 0]\<rparr>)"
    by (simp add: PQsendQuery_def ex_libpq_def)
  have b: "PQsendQuery (conn_m ex_conn) ''CREATE TABLE t (a int)''
        (ex_libpq\<lparr>getResult_replies := [Some (PGresult 1 PGRES_COMMAND_OK)]\<rparr>)
      = (1, ex_libpq\<lparr>getResult_replies := [Some (PGresult 1 PGRES_COMMAND_OK)],
           sendQuery_replies := [], calls := [Called_PQsendQuery ''CREATE TABLE t (a int)'' 1]\<rparr>)"
    by (simp add: PQsendQuery_def ex_libpq_def)
  show ?thesis
    using execute_drains [OF a] execute_drains [OF b]
    by (simp add: queued_def ex_libpq_def)
qed

subsection \<open>The asynchronous protocol\<close>

lemma clearAsyncResult_loop_None: "clearAsyncResult_loop conn None w = w"
  by (simp add: clearAsyncResult_loop.simps [of conn None w])

lemma clearAsyncResult_loop_Some:
  "clearAsyncResult_loop conn (Some r) w =
     w\<lparr>getResult_replies := drop (Suc (length (queued w))) (getResult_replies w),
       calls := calls w @ Called_PQclear r # get_and_clear (queued w) @ [Called_PQgetResult None]\<rparr>"
proof (induction "getResult_replies w" arbitrary: r w)
  case Nil
  from Nil [symmetric] show ?case
    by (simp add: clearAsyncResult_loop.simps [of conn "Some r" w] PQgetResult_def PQclear_def
          queued_def clearAsyncResult_loop_None)
next
  case (Cons x xs)
  note w = Cons.hyps(2) [symmetric]
  show ?case
  proof (cases x)
    case None
    with w show ?thesis
      by (simp add: clearAsyncResult_loop.simps [of conn "Some r" w] PQgetResult_def PQclear_def
            queued_def clearAsyncResult_loop_None)
  next
    case (Some r')
    define w' where
      "w' = w\<lparr>getResult_replies := xs, calls := calls w @ [Called_PQclear r, Called_PQgetResult x]\<rparr>"
    have xs: "xs = getResult_replies w'"
      by (simp add: w'_def)
    have step: "clearAsyncResult_loop conn (Some r) w = clearAsyncResult_loop conn (Some r') w'"
      using w Some
      by (simp add: clearAsyncResult_loop.simps [of conn "Some r" w] PQgetResult_def PQclear_def
            w'_def)
    have q: "queued w = Some r' # queued w'"
      using w Some by (simp add: queued_def w'_def)
    show ?thesis
      unfolding step Cons.hyps(1) [OF xs] q
      using w Some by (simp add: w'_def)
  qed
qed

lemma queued_filter: "filter (\<lambda>r. r \<noteq> None) (queued w) = queued w"
  unfolding queued_def by (rule filter_True) (auto dest: set_takeWhileD)

lemma obtained_queued: "obtained (get_and_clear (queued w)) = map the (queued w)"
  by (simp only: obtained_get_and_clear queued_filter)

lemma released_queued: "released (get_and_clear (queued w)) = map the (queued w)"
  by (simp only: released_get_and_clear queued_filter)

lemma status_env:
  assumes "status c w = (s, w1)"
  shows "getResult_replies w1 = getResult_replies w"
    and "\<exists>new. calls w1 = calls w @ new \<and> obtained new = [] \<and> released new = []"
  using assms
  by (auto simp: status_def isOK_def PQstatus_def PQerrorMessage_def Let_def
        split: if_splits list.splits prod.splits)

lemma close_env:
  assumes "close c w = (c1, w1)"
  shows "closed_m c1" and "pending_m c1 = pending_m c"
    and "getResult_replies w1 = getResult_replies w"
    and "calls w1 = calls w @ (if closed_m c then [] else [Called_PQfinish (conn_m c)])"
  using assms by (auto simp: close_def PQfinish_def split: if_splits)

lemma drain_failure:
  assumes g: "PQgetResult (conn_m c) w = (result, w1)"
    and s: "status c w1 = (s, w2)"
    and cl: "clearAsyncResult result c w2 = (c1, w3)"
    and cls: "close c1 w3 = (c2, w4)"
  shows "async_failure c w c2 w4"
proof -
  from s obtain n2 where n2: "calls w2 = calls w1 @ n2" "obtained n2 = []" "released n2 = []"
    and g2: "getResult_replies w2 = getResult_replies w1"
    using status_env [OF s] by blast
  from cl have c1: "c1 = c\<lparr>pending_m := False\<rparr>"
    and w3: "w3 = clearAsyncResult_loop (conn_m c) result w2"
    by (simp_all add: clearAsyncResult_def)
  from close_env [OF cls] c1
  have c2: "closed_m c2" "\<not> pending_m c2"
    and g4: "getResult_replies w4 = getResult_replies w3"
    and n4: "calls w4 = calls w3 @ (if closed_m c then [] else [Called_PQfinish (conn_m c)])"
    by simp_all
  show ?thesis
  proof (cases result)
    case None
    with g have q: "queued w = []" "calls w1 = calls w @ [Called_PQgetResult None]"
      "getResult_replies w1 = drop (Suc 0) (getResult_replies w)"
      by (auto simp: PQgetResult_def queued_def split: list.splits)
    from None w3 have "w3 = w2" by (simp add: clearAsyncResult_loop_None)
    with q n2 g2 c2 g4 n4 show ?thesis
      unfolding async_failure_def
      by (intro exI [of _ "[Called_PQgetResult None] @ n2"])
         (simp add: obtained_append released_append)
  next
    case (Some r)
    with g have q: "queued w = Some r # queued w1" "calls w1 = calls w @ [Called_PQgetResult (Some r)]"
      "getResult_replies w = Some r # getResult_replies w1"
      by (auto simp: PQgetResult_def queued_def split: list.splits)
    from g2 have q2: "queued w2 = queued w1" by (simp add: queued_def)
    from Some w3 have w3': "calls w3 = calls w2 @ Called_PQclear r # get_and_clear (queued w2)
          @ [Called_PQgetResult None]"
      "getResult_replies w3 = drop (Suc (length (queued w2))) (getResult_replies w2)"
      by (simp_all add: clearAsyncResult_loop_Some)
    with q q2 n2 g2 c2 g4 n4 show ?thesis
      unfolding async_failure_def
      by (intro exI [of _ "[Called_PQgetResult (Some r)] @ n2 @ Called_PQclear r
            # get_and_clear (queued w1) @ [Called_PQgetResult None]"])
         (simp add: obtained_append released_append obtained_queued released_queued)
  qed
qed

lemma executeAsyncQuery_failure:
  assumes "executeAsyncQuery sql type c w = (Inl e, c', w')"
  shows "async_failure c w c' w'"
proof -
  obtain result w1 where send:
    "(if type = 1 then PQsendQueryParams (conn_m c) sql w else PQsendQuery (conn_m c) sql w)
       = (result, w1)"
    by (cases "if type = 1 then PQsendQueryParams (conn_m c) sql w else PQsendQuery (conn_m c) sql w")
  then have w1: "getResult_replies w1 = getResult_replies w"
    "\<exists>n. calls w1 = calls w @ n \<and> obtained n = [] \<and> released n = []"
    by (auto simp: PQsendQueryParams_def PQsendQuery_def split: if_splits list.splits)
  then obtain n1 where n1: "calls w1 = calls w @ n1" "obtained n1 = []" "released n1 = []"
    by blast
  obtain s w2 where s: "status c w1 = (s, w2)" by (cases "status c w1")
  then obtain n2 where n2: "calls w2 = calls w1 @ n2" "obtained n2 = []" "released n2 = []"
    and g2: "getResult_replies w2 = getResult_replies w1"
    using status_env [OF s] by blast
  obtain r w3 where g: "PQgetResult (conn_m c) w2 = (r, w3)"
    by (cases "PQgetResult (conn_m c) w2")
  obtain s' w3' where s': "status c w3 = (s', w3')" by (cases "status c w3")
  obtain c1 w4 where cl: "clearAsyncResult r c w3 = (c1, w4)"
    by (cases "clearAsyncResult r c w3")
  obtain c2 w5 where cls: "close c1 w4 = (c2, w5)" by (cases "close c1 w4")
  from assms send s g cl cls have res: "result \<noteq> 1" "c' = c2" "w' = w5"
    by (auto simp: executeAsyncQuery_def split: if_splits)
  from cl have c1: "c1 = c\<lparr>pending_m := False\<rparr>"
    and w4: "w4 = clearAsyncResult_loop (conn_m c) r w3"
    by (simp_all add: clearAsyncResult_def)
  from close_env [OF cls] c1
  have c2: "closed_m c2" "\<not> pending_m c2"
    and g5: "getResult_replies w5 = getResult_replies w4"
    and n5: "calls w5 = calls w4 @ (if closed_m c then [] else [Called_PQfinish (conn_m c)])"
    by simp_all
  from w1 g2 have q2: "queued w2 = queued w" "getResult_replies w2 = getResult_replies w"
    by (simp_all add: queued_def)
  show ?thesis
  proof (cases r)
    case None
    with g have q: "queued w2 = []" "calls w3 = calls w2 @ [Called_PQgetResult None]"
      "getResult_replies w3 = drop (Suc 0) (getResult_replies w2)"
      by (auto simp: PQgetResult_def queued_def split: list.splits)
    from None w4 have "w4 = w3" by (simp add: clearAsyncResult_loop_None)
    with q q2 n1 n2 c2 g5 n5 res show ?thesis
      unfolding async_failure_def
      by (intro exI [of _ "n1 @ n2 @ [Called_PQgetResult None]"])
         (simp add: obtained_append released_append)
  next
    case (Some x)
    with g have q: "queued w2 = Some x # queued w3"
      "calls w3 = calls w2 @ [Called_PQgetResult (Some x)]"
      "getResult_replies w2 = Some x # getResult_replies w3"
      by (auto simp: PQgetResult_def queued_def split: list.splits)
    from Some w4 have w4': "calls w4 = calls w3 @ Called_PQclear x # get_and_clear (queued w3)
          @ [Called_PQgetResult None]"
      "getResult_replies w4 = drop (Suc (length (queued w3))) (getResult_replies w3)"
      by (simp_all add: clearAsyncResult_loop_Some)
    from q q2 have qw: "queued w = Some x # queued w3"
      "getResult_replies w = Some x # getResult_replies w3"
      by simp_all
    from w4' q(2) qw n1 n2 c2 g5 n5 res show ?thesis
      unfolding async_failure_def
      by (intro exI [of _ "n1 @ n2 @ [Called_PQgetResult (Some x)] @ Called_PQclear x
            # get_and_clear (queued w3) @ [Called_PQgetResult None]"])
         (simp add: obtained_append released_append obtained_queued released_queued)
  qed
qed

lemma getNextAsyncResult_failure:
  assumes "getNextAsyncResult c w = (Inl e, c', w')"
  shows "async_failure c w c' w'"
proof -
  obtain result w1 where g: "PQgetResult (conn_m c) w = (result, w1)"
    by (cases "PQgetResult (conn_m c) w")
  obtain s w2 where s: "status c w1 = (s, w2)" by (cases "status c w1")
  obtain c1 w3 where cl: "clearAsyncResult result c w2 = (c1, w3)"
    by (cases "clearAsyncResult result c w2")
  obtain c2 w4 where cls: "close c1 w3 = (c2, w4)" by (cases "close c1 w3")
  from assms g s cl cls have "c' = c2" "w' = w4"
    by (auto simp: getNextAsyncResult_def split: if_splits)
  with drain_failure [OF g s cl cls] show ?thesis by simp
qed

lemma getAsyncResult_failure:
  assumes "getAsyncResult c w = (Inl e, c', w')"
  shows "async_failure c w c' w'"
proof -
  obtain result w1 where g: "PQgetResult (conn_m c) w = (result, w1)"
    by (cases "PQgetResult (conn_m c) w")
  obtain s w2 where s: "status c w1 = (s, w2)" by (cases "status c w1")
  obtain c1 w3 where cl: "clearAsyncResult result c w2 = (c1, w3)"
    by (cases "clearAsyncResult result c w2")
  obtain c2 w4 where cls: "close c1 w3 = (c2, w4)" by (cases "close c1 w3")
  from assms g s cl cls have "c' = c2" "w' = w4"
    by (auto simp: getAsyncResult_def split: if_splits)
  with drain_failure [OF g s cl cls] show ?thesis by simp
qed

lemma thrown: "isl (fst t) \<Longrightarrow> t = (Inl (projl (fst t)), fst (snd t), snd (snd t))"
  by (cases t) (auto simp: isl_def)

lemma returned: "\<not> isl (fst t) \<Longrightarrow> t = (Inr (projr (fst t)), fst (snd t), snd (snd t))"
  by (cases t; cases "fst t") auto

text \<open>C5. Each asynchronous call throws exactly on its trigger: \<open>executeAsyncQuery\<close> when
  the submission does not return 1, \<open>getNextAsyncResult\<close> when the result it retrieved has
  a status other than \<open>PGRES_TUPLES_OK\<close>, \<open>getAsyncResult\<close> when it retrieved no result or
  one with such a status. On each trigger the call has cleaned up (\<open>cleaned_up\<close>) when
  it throws: the calls made during the method extend the log; the results obtained from
  the handle during the call are exactly the queued ones (the replies of \<open>PQgetResult\<close>
  up to its first NULL), each of them has been released, the queue has been consumed up
  to and including that NULL, \<open>pending_\<close> is cleared, \<open>closed_\<close> is set, and on a
  connection that was not closed before the last call made is the \<open>PQfinish\<close> of the
  handle.\<close>

theorem async_failure_cleanup:
  "(isl (fst (executeAsyncQuery sql type c w))
      \<longleftrightarrow> fst (if type = 1 then PQsendQueryParams (conn_m c) sql w
               else PQsendQuery (conn_m c) sql w) \<noteq> 1)
   \<and> (fst (if type = 1 then PQsendQueryParams (conn_m c) sql w
            else PQsendQuery (conn_m c) sql w) \<noteq> 1
        \<longrightarrow> cleaned_up c w (fst (snd (executeAsyncQuery sql type c w)))
              (snd (snd (executeAsyncQuery sql type c w))))
   \<and> (isl (fst (getNextAsyncResult c w))
        \<longleftrightarrow> (\<exists>r. fst (PQgetResult (conn_m c) w) = Some r
                  \<and> PQresultStatus r \<noteq> PGRES_TUPLES_OK))
   \<and> ((\<exists>r. fst (PQgetResult (conn_m c) w) = Some r \<and> PQresultStatus r \<noteq> PGRES_TUPLES_OK)
        \<longrightarrow> cleaned_up c w (fst (snd (getNextAsyncResult c w)))
              (snd (snd (getNextAsyncResult c w))))
   \<and> (isl (fst (getAsyncResult c w))
        \<longleftrightarrow> (fst (PQgetResult (conn_m c) w) = None
              \<or> (\<exists>r. fst (PQgetResult (conn_m c) w) = Some r
                    \<and> PQresultStatus r \<noteq> PGRES_TUPLES_OK)))
   \<and> (fst (PQgetResult (conn_m c) w) = None
          \<or> (\<exists>r. fst (PQgetResult (conn_m c) w) = Some r
                \<and> PQresultStatus r \<noteq> PGRES_TUPLES_OK)
        \<longrightarrow> cleaned_up c w (fst (snd (getAsyncResult c w)))
              (snd (snd (getAsyncResult c w))))"
proof -
  have clean: "cleaned_up c w c' w'" if "async_failure c w c' w'" for c' w'
  proof -
    from that obtain new where new:
      "calls w' = calls w @ new @ (if closed_m c then [] else [Called_PQfinish (conn_m c)])"
      "obtained new = map the (queued w)" "released new = map the (queued w)"
      "getResult_replies w' = drop (Suc (length (queued w))) (getResult_replies w)"
      "\<not> pending_m c'" "closed_m c'"
      unfolding async_failure_def by blast
    then show ?thesis
      by (simp add: cleaned_up_def obtained_append released_append)
  qed
  have a: "isl (fst (executeAsyncQuery sql type c w))
      \<longleftrightarrow> fst (if type = 1 then PQsendQueryParams (conn_m c) sql w
               else PQsendQuery (conn_m c) sql w) \<noteq> 1"
    by (auto simp: executeAsyncQuery_def split: prod.splits)
  have b: "isl (fst (getNextAsyncResult c w))
      \<longleftrightarrow> (\<exists>r. fst (PQgetResult (conn_m c) w) = Some r \<and> PQresultStatus r \<noteq> PGRES_TUPLES_OK)"
    by (auto simp: getNextAsyncResult_def split: prod.splits)
  have d: "isl (fst (getAsyncResult c w))
      \<longleftrightarrow> (fst (PQgetResult (conn_m c) w) = None
            \<or> (\<exists>r. fst (PQgetResult (conn_m c) w) = Some r \<and> PQresultStatus r \<noteq> PGRES_TUPLES_OK))"
  proof -
    obtain x1 x2 where g: "PQgetResult (conn_m c) w = (x1, x2)"
      by (cases "PQgetResult (conn_m c) w")
    then show ?thesis
      by (cases x1) (simp_all add: getAsyncResult_def split: prod.splits)
  qed
  have a': "cleaned_up c w (fst (snd (executeAsyncQuery sql type c w)))
      (snd (snd (executeAsyncQuery sql type c w)))"
    if "isl (fst (executeAsyncQuery sql type c w))"
    by (rule clean [OF executeAsyncQuery_failure [OF thrown [OF that]]])
  have b': "cleaned_up c w (fst (snd (getNextAsyncResult c w))) (snd (snd (getNextAsyncResult c w)))"
    if "isl (fst (getNextAsyncResult c w))"
    by (rule clean [OF getNextAsyncResult_failure [OF thrown [OF that]]])
  have d': "cleaned_up c w (fst (snd (getAsyncResult c w))) (snd (snd (getAsyncResult c w)))"
    if "isl (fst (getAsyncResult c w))"
    by (rule clean [OF getAsyncResult_failure [OF thrown [OF that]]])
  from a a' b b' d d' show ?thesis
    by blast
qed

theorem async_failure_cleanup_witness:
  "isl (fst (executeAsyncQuery ''SELECT 1'' 0 ex_pending ex_rejected))
   \<and> released (calls (snd (snd (executeAsyncQuery ''SELECT 1'' 0 ex_pending ex_rejected))))
       = [PGresult 1 PGRES_COMMAND_OK, PGresult 2 PGRES_TUPLES_OK]
   \<and> obtained (calls (snd (snd (executeAsyncQuery ''SELECT 1'' 0 ex_pending ex_rejected))))
       = [PGresult 1 PGRES_COMMAND_OK, PGresult 2 PGRES_TUPLES_OK]
   \<and> \<not> pending_m (fst (snd (executeAsyncQuery ''SELECT 1'' 0 ex_pending ex_rejected)))
   \<and> closed_m (fst (snd (executeAsyncQuery ''SELECT 1'' 0 ex_pending ex_rejected)))
   \<and> isl (fst (getNextAsyncResult ex_pending ex_libpq))
   \<and> released (calls (snd (snd (getNextAsyncResult ex_pending ex_libpq))))
       = [PGresult 1 PGRES_COMMAND_OK, PGresult 2 PGRES_TUPLES_OK]
   \<and> \<not> pending_m (fst (snd (getNextAsyncResult ex_pending ex_libpq)))
   \<and> closed_m (fst (snd (getNextAsyncResult ex_pending ex_libpq)))
   \<and> last (calls (snd (snd (getNextAsyncResult ex_pending ex_libpq)))) = Called_PQfinish (Some 1)
   \<and> getAsyncResult ex_conn ex_libpq =
     (Inl (datasource_exception (''Postgis Plugin: syntax error'' @ [newline] @ ''in getAsyncResult'')),
      ex_conn\<lparr>closed_m := True\<rparr>,
      ex_libpq\<lparr>status_replies := [CONNECTION_OK], errorMessage_replies := [],
        getResult_replies := [],
        calls := [Called_PQgetResult (Some (PGresult 1 PGRES_COMMAND_OK)),
          Called_PQstatus CONNECTION_OK, Called_PQerrorMessage ''syntax error'',
          Called_PQclear (PGresult 1 PGRES_COMMAND_OK),
          Called_PQgetResult (Some (PGresult 2 PGRES_TUPLES_OK)),
          Called_PQclear (PGresult 2 PGRES_TUPLES_OK),
          Called_PQgetResult None, Called_PQfinish (Some 1)]\<rparr>)
   \<and> released (calls (snd (snd (getAsyncResult ex_conn ex_libpq))))
       = [PGresult 1 PGRES_COMMAND_OK, PGresult 2 PGRES_TUPLES_OK]
   \<and> obtained (calls (snd (snd (getAsyncResult ex_conn ex_libpq))))
       = [PGresult 1 PGRES_COMMAND_OK, PGresult 2 PGRES_TUPLES_OK]"
proof -
  have t1: "fst (if (0::int) = 1 then PQsendQueryParams (conn_m ex_pending) ''SELECT 1'' ex_rejected
               else PQsendQuery (conn_m ex_pending) ''SELECT 1'' ex_rejected) \<noteq> 1"
    by (simp add: PQsendQuery_def ex_rejected_def ex_libpq_def)
  have t2: "\<exists>r. fst (PQgetResult (conn_m ex_pending) ex_libpq) = Some r
      \<and> PQresultStatus r \<noteq> PGRES_TUPLES_OK"
    by (simp add: PQgetResult_def ex_libpq_def)
  have t3: "fst (PQgetResult (conn_m ex_conn) ex_libpq) = None
      \<or> (\<exists>r. fst (PQgetResult (conn_m ex_conn) ex_libpq) = Some r
            \<and> PQresultStatus r \<noteq> PGRES_TUPLES_OK)"
    by (simp add: PQgetResult_def ex_libpq_def)
  have q: "queued ex_libpq = [Some (PGresult 1 PGRES_COMMAND_OK), Some (PGresult 2 PGRES_TUPLES_OK)]"
    "queued ex_rejected = [Some (PGresult 1 PGRES_COMMAND_OK), Some (PGresult 2 PGRES_TUPLES_OK)]"
    "calls ex_libpq = []" "calls ex_rejected = []"
    "\<not> closed_m ex_pending" "\<not> closed_m ex_conn"
    "conn_m ex_pending = Some 1" "conn_m ex_conn = Some 1"
    by (simp_all add: queued_def ex_rejected_def ex_libpq_def ex_pending_def ex_conn_def)
  note i1 = async_failure_cleanup [of "''SELECT 1''" 0 ex_pending ex_rejected]
  note i2 = async_failure_cleanup [of _ _ ex_pending ex_libpq]
  note i3 = async_failure_cleanup [of _ _ ex_conn ex_libpq]
  have h: "getAsyncResult ex_conn ex_libpq =
     (Inl (datasource_exception (''Postgis Plugin: syntax error'' @ [newline] @ ''in getAsyncResult'')),
      ex_conn\<lparr>closed_m := True\<rparr>,
      ex_libpq\<lparr>status_replies := [CONNECTION_OK], errorMessage_replies := [],
        getResult_replies := [],
        calls := [Called_PQgetResult (Some (PGresult 1 PGRES_COMMAND_OK)),
          Called_PQstatus CONNECTION_OK, Called_PQerrorMessage ''syntax error'',
          Called_PQclear (PGresult 1 PGRES_COMMAND_OK),
          Called_PQgetResult (Some (PGresult 2 PGRES_TUPLES_OK)),
          Called_PQclear (PGresult 2 PGRES_TUPLES_OK),
          Called_PQgetResult None, Called_PQfinish (Some 1)]\<rparr>)"
    by (simp add: getAsyncResult_def ex_conn_def ex_libpq_def PQgetResult_def status_def isOK_def
          PQstatus_def PQerrorMessage_def clearAsyncResult_def clearAsyncResult_loop.simps
          PQclear_def close_def PQfinish_def)
  from i1 t1 have x1: "isl (fst (executeAsyncQuery ''SELECT 1'' 0 ex_pending ex_rejected))"
    and y1: "cleaned_up ex_pending ex_rejected
        (fst (snd (executeAsyncQuery ''SELECT 1'' 0 ex_pending ex_rejected)))
        (snd (snd (executeAsyncQuery ''SELECT 1'' 0 ex_pending ex_rejected)))"
    by blast+
  from i2 t2 have x2: "isl (fst (getNextAsyncResult ex_pending ex_libpq))"
    and y2: "cleaned_up ex_pending ex_libpq (fst (snd (getNextAsyncResult ex_pending ex_libpq)))
        (snd (snd (getNextAsyncResult ex_pending ex_libpq)))"
    by blast+
  from i3 t3 have y3: "cleaned_up ex_conn ex_libpq (fst (snd (getAsyncResult ex_conn ex_libpq)))
        (snd (snd (getAsyncResult ex_conn ex_libpq)))"
    by blast
  from x1 y1 x2 y2 y3 q h show ?thesis
    by (simp add: cleaned_up_def)
qed

lemma closed_update: "closed_m c \<Longrightarrow> c\<lparr>closed_m := True\<rparr> = c"
  by simp

text \<open>C10. When \<open>PQgetResult\<close> has no next result (it returns NULL),
  \<open>getNextAsyncResult\<close> returns a \<open>ResultSet\<close> wrapping NULL and leaves the object,
  \<open>pending_\<close> included, as it was; \<open>getAsyncResult\<close> throws the message made of the
  status text and \<^verbatim>\<open>in getAsyncResult\<close>, with \<open>pending_\<close> cleared and the connection
  closed (\<open>PQfinish\<close> called unless it was closed already); its drain finds nothing to
  release.\<close>

theorem exhausted_queue:
  assumes "PQgetResult (conn_m c) w = (None, w1)"
  shows "getNextAsyncResult c w = (Inr (ResultSet None), c, w1)
    \<and> getAsyncResult c w =
        (Inl (datasource_exception
           (''Postgis Plugin: '' @ fst (status c w1) @ [newline] @ ''in getAsyncResult'')),
         c\<lparr>pending_m := False, closed_m := True\<rparr>,
         if closed_m c then snd (status c w1) else PQfinish (conn_m c) (snd (status c w1)))"
  using assms
  by (simp add: getNextAsyncResult_def getAsyncResult_def clearAsyncResult_def
        clearAsyncResult_loop_None close_def split: prod.splits)

theorem exhausted_queue_witness:
  "getNextAsyncResult (ex_conn\<lparr>pending_m := True\<rparr>) (ex_libpq\<lparr>getResult_replies := []\<rparr>)
     = (Inr (ResultSet None), ex_conn\<lparr>pending_m := True\<rparr>,
        ex_libpq\<lparr>getResult_replies := [], calls := [Called_PQgetResult None]\<rparr>)
   \<and> getAsyncResult (ex_conn\<lparr>pending_m := True\<rparr>) (ex_libpq\<lparr>getResult_replies := []\<rparr>)
     = (Inl (datasource_exception (''Postgis Plugin: syntax error'' @ [newline] @ ''in getAsyncResult'')),
        ex_conn\<lparr>pending_m := False, closed_m := True\<rparr>,
        ex_libpq\<lparr>status_replies := [CONNECTION_OK], errorMessage_replies := [],
          getResult_replies := [],
          calls := [Called_PQgetResult None, Called_PQstatus CONNECTION_OK,
            Called_PQerrorMessage ''syntax error'', Called_PQfinish (Some 1)]\<rparr>)"
proof -
  have h: "PQgetResult (conn_m (ex_conn\<lparr>pending_m := True\<rparr>)) (ex_libpq\<lparr>getResult_replies := []\<rparr>)
      = (None, ex_libpq\<lparr>getResult_replies := [], calls := [Called_PQgetResult None]\<rparr>)"
    by (simp add: PQgetResult_def ex_libpq_def)
  show ?thesis
    using exhausted_queue [OF h]
    by (simp add: ex_conn_def ex_libpq_def status_def isOK_def PQstatus_def PQerrorMessage_def
          PQfinish_def)
qed

text \<open>C2, as amended. After a successful \<open>executeAsyncQuery\<close>, \<open>isPending()\<close> is true.
  After a failing \<open>executeAsyncQuery\<close>, \<open>getNextAsyncResult\<close> or \<open>getAsyncResult\<close>,
  \<open>isPending()\<close> is false. A successful \<open>getNextAsyncResult\<close> or \<open>getAsyncResult\<close>
  leaves the object unchanged, so \<open>isPending()\<close> keeps its value.\<close>

theorem pending_after_async:
  "(executeAsyncQuery sql type c w = (Inr b, c', w') \<longrightarrow> isPending c')
   \<and> (executeAsyncQuery sql type c w = (Inl e, c', w') \<longrightarrow> \<not> isPending c')
   \<and> (getNextAsyncResult c w = (Inl e, c', w') \<longrightarrow> \<not> isPending c')
   \<and> (getAsyncResult c w = (Inl e, c', w') \<longrightarrow> \<not> isPending c')
   \<and> (getNextAsyncResult c w = (Inr rs, c', w') \<longrightarrow> c' = c)
   \<and> (getAsyncResult c w = (Inr rs, c', w') \<longrightarrow> c' = c)"
proof -
  have "executeAsyncQuery sql type c w = (Inr b, c', w') \<Longrightarrow> isPending c'"
    by (auto simp: executeAsyncQuery_def isPending_def split: if_splits prod.splits)
  moreover have "executeAsyncQuery sql type c w = (Inl e, c', w') \<Longrightarrow> \<not> isPending c'"
    using executeAsyncQuery_failure [of sql type c w e c' w']
    by (auto simp: async_failure_def isPending_def)
  moreover have "getNextAsyncResult c w = (Inl e, c', w') \<Longrightarrow> \<not> isPending c'"
    using getNextAsyncResult_failure [of c w e c' w']
    by (auto simp: async_failure_def isPending_def)
  moreover have "getAsyncResult c w = (Inl e, c', w') \<Longrightarrow> \<not> isPending c'"
    using getAsyncResult_failure [of c w e c' w']
    by (auto simp: async_failure_def isPending_def)
  moreover have "getNextAsyncResult c w = (Inr rs, c', w') \<Longrightarrow> c' = c"
    by (auto simp: getNextAsyncResult_def split: if_splits prod.splits)
  moreover have "getAsyncResult c w = (Inr rs, c', w') \<Longrightarrow> c' = c"
    by (auto simp: getAsyncResult_def split: if_splits prod.splits)
  ultimately show ?thesis by blast
qed

text \<open>C2 as stated fails: after a successful \<open>executeAsyncQuery\<close> and a successful
  \<open>getAsyncResult\<close>, \<open>isPending()\<close> is still true.\<close>

theorem pending_after_getAsyncResult_counterexample:
  "fst (executeAsyncQuery ''SELECT 1'' 0 ex_conn ex_rows) = Inr True
   \<and> fst (getAsyncResult (fst ex_submitted) (snd ex_submitted))
       = Inr (ResultSet (Some (PGresult 1 PGRES_TUPLES_OK)))
   \<and> isPending (fst (snd (getAsyncResult (fst ex_submitted) (snd ex_submitted))))"
  by (simp add: ex_submitted_def executeAsyncQuery_def getAsyncResult_def isPending_def
        ex_conn_def ex_rows_def ex_libpq_def PQsendQuery_def PQgetResult_def)

theorem pending_after_async_witness:
  "isPending (fst (snd (executeAsyncQuery ''SELECT 1'' 0 ex_conn ex_rows)))
   \<and> \<not> isPending (fst (snd (executeAsyncQuery ''SELECT 1'' 0 ex_pending
          (ex_rows\<lparr>sendQuery_replies := [0]\<rparr>))))
   \<and> \<not> isPending (fst (snd (getNextAsyncResult ex_pending ex_libpq)))
   \<and> \<not> isPending (fst (snd (getAsyncResult ex_pending ex_libpq)))
   \<and> fst (snd (getNextAsyncResult ex_pending ex_rows)) = ex_pending
   \<and> fst (snd (getAsyncResult ex_pending ex_rows)) = ex_pending"
proof -
  have a: "\<not> isl (fst (executeAsyncQuery ''SELECT 1'' 0 ex_conn ex_rows))"
    by (simp add: executeAsyncQuery_def ex_rows_def ex_libpq_def PQsendQuery_def)
  have b: "isl (fst (executeAsyncQuery ''SELECT 1'' 0 ex_pending (ex_rows\<lparr>sendQuery_replies := [0]\<rparr>)))"
    by (simp add: executeAsyncQuery_def ex_rows_def ex_libpq_def PQsendQuery_def
          split: prod.splits)
  have c: "isl (fst (getNextAsyncResult ex_pending ex_libpq))"
    by (simp add: getNextAsyncResult_def ex_libpq_def PQgetResult_def split: prod.splits)
  have d: "isl (fst (getAsyncResult ex_pending ex_libpq))"
    by (simp add: getAsyncResult_def ex_libpq_def PQgetResult_def split: prod.splits)
  have e: "\<not> isl (fst (getNextAsyncResult ex_pending ex_rows))"
    by (simp add: getNextAsyncResult_def ex_rows_def ex_libpq_def PQgetResult_def)
  have f: "\<not> isl (fst (getAsyncResult ex_pending ex_rows))"
    by (simp add: getAsyncResult_def ex_rows_def ex_libpq_def PQgetResult_def)
  show ?thesis
    using pending_after_async [THEN conjunct1, rule_format, OF returned [OF a]]
      pending_after_async [THEN conjunct2, THEN conjunct1, rule_format, OF thrown [OF b]]
      pending_after_async [THEN conjunct2, THEN conjunct2, THEN conjunct1, rule_format,
        OF thrown [OF c]]
      pending_after_async [THEN conjunct2, THEN conjunct2, THEN conjunct2, THEN conjunct1,
        rule_format, OF thrown [OF d]]
      pending_after_async [THEN conjunct2, THEN conjunct2, THEN conjunct2, THEN conjunct2,
        THEN conjunct1, rule_format, OF returned [OF e]]
      pending_after_async [THEN conjunct2, THEN conjunct2, THEN conjunct2, THEN conjunct2,
        THEN conjunct2, rule_format, OF returned [OF f]]
    by simp
qed

subsection \<open>Cursor names\<close>

lemma read_show_nat: "read_nat (show_nat n) = n"
proof (induction n rule: show_nat.induct)
  case (1 n)
  show ?case
  proof (cases "n < 10")
    case True
    then show ?thesis
      by (simp add: show_nat.simps [of n] read_nat_def digit_char_def)
  next
    case False
    have "n mod 10 < 10" by simp
    then have "(48 + n mod 10) mod 256 = 48 + n mod 10" by simp
    with False "1.IH" show ?thesis
      by (simp add: show_nat.simps [of n] read_nat_def digit_char_def)
  qed
qed

lemma show_nat_inj: "show_nat m = show_nat n \<Longrightarrow> m = n"
  by (metis read_show_nat)

lemma hd_show_nat: "show_nat n \<noteq> [] \<and> hd (show_nat n) \<noteq> CHR ''-''"
proof (induction n rule: show_nat.induct)
  case (1 n)
  show ?case
  proof (cases "n < 10")
    case True
    then have "(48 + n) mod 256 = 48 + n" by simp
    with True show ?thesis
      by (auto simp: show_nat.simps [of n] digit_char_def char_of_eq_iff take_bit_eq_mod)
  next
    case False
    with "1.IH" show ?thesis
      by (simp add: show_nat.simps [of n])
  qed
qed

lemma show_int_inj: "show_int i = show_int j \<Longrightarrow> i = j"
proof -
  assume eq: "show_int i = show_int j"
  have neg: "hd (show_int k) = CHR ''-'' \<longleftrightarrow> k < 0" for k
    using hd_show_nat [of "nat k"] by (simp add: show_int_def)
  from eq neg [of i] neg [of j] have sign: "i < 0 \<longleftrightarrow> j < 0" by simp
  show "i = j"
  proof (cases "i < 0")
    case True
    with eq sign have "show_nat (nat (- i)) = show_nat (nat (- j))"
      by (simp add: show_int_def)
    then have "nat (- i) = nat (- j)" by (rule show_nat_inj)
    with True sign show ?thesis by simp
  next
    case False
    with eq sign have "show_nat (nat i) = show_nat (nat j)"
      by (simp add: show_int_def)
    then have "nat i = nat j" by (rule show_nat_inj)
    with False sign show ?thesis by simp
  qed
qed

lemma cursor_names_eq:
  "cursor_names n c =
     (map (\<lambda>i. ''mapnik_'' @ show_int (sint (cursorId c + of_nat i))) [0..<n],
      c\<lparr>cursorId := cursorId c + of_nat n\<rparr>)"
proof (induction n arbitrary: c)
  case 0
  show ?case by simp
next
  case (Suc n)
  have "map (\<lambda>i. ''mapnik_'' @ show_int (sint (cursorId c + of_nat i))) [0..<Suc n]
      = (''mapnik_'' @ show_int (sint (cursorId c)))
        # map (\<lambda>i. ''mapnik_'' @ show_int (sint (cursorId c + 1 + of_nat i))) [0..<n]"
    by (simp add: upt_conv_Cons map_Suc_upt [symmetric] add.assoc del: upt_Suc)
  then show ?case
    by (simp add: Suc.IH new_cursor_name_def add.assoc del: upt_Suc)
qed

text \<open>C9, as amended. For every \<open>N\<close> up to \<open>2 ^ 32\<close>, \<open>N\<close> consecutive calls of
  \<open>new_cursor_name()\<close> on one connection return pairwise distinct names; the name of call
  \<open>i\<close> is \<^verbatim>\<open>mapnik_\<close> followed by the decimal value of the 32-bit counter at that call, and
  each call adds one to the counter, modulo \<open>2 ^ 32\<close>.\<close>

theorem cursor_names_distinct:
  assumes "N \<le> 2 ^ 32"
  shows "distinct (fst (cursor_names N c))
    \<and> fst (cursor_names N c)
        = map (\<lambda>i. ''mapnik_'' @ show_int (sint (cursorId c + of_nat i))) [0..<N]
    \<and> cursorId (snd (cursor_names N c)) = cursorId c + of_nat N
    \<and> new_cursor_name c = (''mapnik_'' @ show_int (sint (cursorId c)), c\<lparr>cursorId := cursorId c + 1\<rparr>)"
proof -
  have "inj_on (\<lambda>i. ''mapnik_'' @ show_int (sint (cursorId c + of_nat i))) (set [0..<N])"
  proof (rule inj_onI)
    fix i j
    assume i: "i \<in> set [0..<N]" and j: "j \<in> set [0..<N]"
      and eq: "''mapnik_'' @ show_int (sint (cursorId c + of_nat i))
             = ''mapnik_'' @ show_int (sint (cursorId c + of_nat j))"
    from eq have "sint (cursorId c + of_nat i) = sint (cursorId c + of_nat j)"
      by (simp add: show_int_inj)
    then have "cursorId c + of_nat i = cursorId c + of_nat j"
      by (rule signed_word_eqI)
    then have "(of_nat i :: 32 word) = of_nat j" by simp
    then have "take_bit 32 i = take_bit 32 j"
      by (simp add: word_of_nat_eq_iff)
    moreover from i j assms have "i < 2 ^ 32" "j < 2 ^ 32" by simp_all
    ultimately show "i = j" by (simp add: take_bit_nat_eq_self)
  qed
  then show ?thesis
    by (simp add: cursor_names_eq distinct_map new_cursor_name_def)
qed

theorem cursor_names_distinct_witness:
  "(3::nat) \<le> 2 ^ 32
   \<and> fst (cursor_names 3 ex_conn) = [''mapnik_0'', ''mapnik_1'', ''mapnik_2'']
   \<and> distinct (fst (cursor_names 3 ex_conn))
   \<and> cursorId (snd (cursor_names 3 ex_conn)) = 3"
proof -
  have h: "(3::nat) \<le> 2 ^ 32" by simp
  have u: "[0..<3] = [0, 1, 2]" by (simp add: upt_conv_Cons)
  show ?thesis
    using h cursor_names_distinct [OF h, of ex_conn]
    by (simp add: u ex_conn_def show_int_def show_nat.simps digit_char_def char_of_def bit_Suc_0_iff)
qed

text \<open>C9 as stated, for every \<open>N\<close>, fails: the counter is a 32-bit \<open>int\<close>, so call
  number \<open>2 ^ 32 + 1\<close> on a fresh connection returns the name of the first call again.\<close>

theorem cursor_names_wrap_counterexample:
  "\<not> distinct (fst (cursor_names (2 ^ 32 + 1) ex_conn))"
proof
  let ?f = "\<lambda>i. ''mapnik_'' @ show_int (sint (cursorId ex_conn + of_nat i))"
  assume "distinct (fst (cursor_names (2 ^ 32 + 1) ex_conn))"
  then have inj: "inj_on ?f (set [0..<2 ^ 32 + 1])"
    by (simp add: cursor_names_eq distinct_map del: upt_Suc)
  have mem: "(0::nat) \<in> set [0..<2 ^ 32 + 1]" "(2 ^ 32 :: nat) \<in> set [0..<2 ^ 32 + 1]"
    by simp_all
  have z: "(of_nat (2 ^ 32) :: 32 word) = of_nat 0"
    unfolding of_nat_0 word_of_nat_eq_0_iff by simp
  have eq: "?f 0 = ?f (2 ^ 32)"
    unfolding z ..
  from inj_onD [OF inj eq mem] have "(0::nat) = 2 ^ 32" .
  then show False by simp
qed

subsection \<open>Construction\<close>

lemma Connection_ctor_calls:
  "take (Suc (length (calls w))) (calls (snd (Connection_ctor connection_str password w)))
     = calls w @ [Called_PQconnectdb (connect_with_pass connection_str password) (connectdb_reply w)]"
  by (auto simp: Connection_ctor_def connect_with_pass_def PQconnectdb_def PQstatus_def
        status_def isOK_def PQerrorMessage_def close_def PQfinish_def Let_def
        split: option.splits list.splits prod.splits)

lemma Connection_ctor_part_000_calls:
  "take (Suc (length (calls w))) (calls (snd (Connection_ctor_part_000 connection_str password w)))
     = calls w @ [Called_PQconnectdb (connect_with_pass connection_str password) (connectdb_reply w)]"
  by (auto simp: Connection_ctor_part_000_def connect_with_pass_def PQconnectdb_def PQstatus_def
        status_def isOK_def PQerrorMessage_def Let_def
        split: option.splits list.splits prod.splits)

text \<open>The older variant never calls \<open>PQfinish\<close> in its constructor, also when it
  throws.\<close>

lemma Connection_ctor_part_000_no_PQfinish:
  "Called_PQfinish h
     \<notin> set (drop (length (calls w)) (calls (snd (Connection_ctor_part_000 connection_str password w))))"
  by (auto simp: Connection_ctor_part_000_def PQconnectdb_def PQstatus_def
        status_def isOK_def PQerrorMessage_def Let_def
        split: option.splits list.splits prod.splits)

lemma Connection_ctor_same_outcome:
  "fst (Connection_ctor_part_000 connection_str password w)
     = fst (Connection_ctor connection_str password w)"
  by (auto simp: Connection_ctor_def Connection_ctor_part_000_def Let_def
        split: option.splits prod.splits)

lemma Connection_ctor_throws:
  assumes "Connection_ctor connection_str password w = (Inl e, w')"
  shows "e = datasource_exception (''Postgis Plugin: '' @ ctor_status_text w @ [newline]
             @ ''Connection string: '' @ [quote] @ connection_str @ [quote, newline])"
    and "last (calls w') = Called_PQfinish (connectdb_reply w)"
    and "(case status_replies w of [] \<Rightarrow> CONNECTION_BAD | s # ss \<Rightarrow> s) \<noteq> CONNECTION_OK"
  using assms
  by (auto simp: Connection_ctor_def ctor_status_text_def PQconnectdb_def PQstatus_def
        status_def isOK_def PQerrorMessage_def close_def PQfinish_def Let_def
        split: option.splits list.splits prod.splits if_splits)

lemma Connection_ctor_returns:
  assumes "Connection_ctor connection_str password w = (Inr c, w')"
  shows "(case status_replies w of [] \<Rightarrow> CONNECTION_BAD | s # ss \<Rightarrow> s) = CONNECTION_OK"
  using assms
  by (auto simp: Connection_ctor_def PQconnectdb_def PQstatus_def Let_def
        split: option.splits list.splits prod.splits if_splits)

text \<open>C4, as amended. In both variants of the class the constructor hands \<open>PQconnectdb\<close>
  the connection string, with \<^verbatim>\<open> password=\<close> and the credential appended exactly when a
  non-empty credential is given, and both variants end in the same way (the same object
  or the same exception). Construction fails exactly when the status is not
  \<open>CONNECTION_OK\<close>. The exception text is \<^verbatim>\<open>Postgis Plugin: \<close>, the text of \<open>status()\<close>,
  \<^verbatim>\<open>Connection string: \<close> and the connection string as given, without the credential. The
  text of \<open>status()\<close> is the server's message only when the handle exists and does not
  report \<open>CONNECTION_BAD\<close>; otherwise it is \<^verbatim>\<open>Bad connection\<close> (or
  \<^verbatim>\<open>Uninitialized connection\<close> for a NULL handle). In connection.hpp the last call before
  the exception is the \<open>PQfinish\<close> of the handle.\<close>

theorem Connection_ctor_failure:
  "take (Suc (length (calls w))) (calls (snd (Connection_ctor connection_str password w)))
     = calls w @ [Called_PQconnectdb (connect_with_pass connection_str password) (connectdb_reply w)]
   \<and> take (Suc (length (calls w))) (calls (snd (Connection_ctor_part_000 connection_str password w)))
     = calls w @ [Called_PQconnectdb (connect_with_pass connection_str password) (connectdb_reply w)]
   \<and> connect_with_pass connection_str password =
       (case password of
          None \<Rightarrow> connection_str
        | Some p \<Rightarrow> if p \<noteq> [] then connection_str @ '' password='' @ p else connection_str)
   \<and> fst (Connection_ctor_part_000 connection_str password w)
       = fst (Connection_ctor connection_str password w)
   \<and> (isl (fst (Connection_ctor connection_str password w))
        \<longleftrightarrow> (case status_replies w of [] \<Rightarrow> CONNECTION_BAD | s # ss \<Rightarrow> s) \<noteq> CONNECTION_OK)
   \<and> (Connection_ctor connection_str password w = (Inl e, w') \<longrightarrow>
        e = datasource_exception (''Postgis Plugin: '' @ ctor_status_text w @ [newline]
              @ ''Connection string: '' @ [quote] @ connection_str @ [quote, newline])
        \<and> last (calls w') = Called_PQfinish (connectdb_reply w))"
proof -
  have "isl (fst (Connection_ctor connection_str password w))
      \<longleftrightarrow> (case status_replies w of [] \<Rightarrow> CONNECTION_BAD | s # ss \<Rightarrow> s) \<noteq> CONNECTION_OK"
  proof (cases "Connection_ctor connection_str password w")
    case (Pair r w'')
    then show ?thesis
      using Connection_ctor_throws(3) [of connection_str password w _ w'']
        Connection_ctor_returns [of connection_str password w _ w'']
      by (cases r) auto
  qed
  then show ?thesis
    using Connection_ctor_calls Connection_ctor_part_000_calls Connection_ctor_same_outcome
      Connection_ctor_throws(1,2) [of connection_str password w e w']
    by (simp add: connect_with_pass_def)
qed

theorem Connection_ctor_failure_witness:
  "Connection_ctor ''host=nowhere'' (Some ''secret'') ex_refused =
     (Inl (datasource_exception (''Postgis Plugin: Bad connection'' @ [newline]
        @ ''Connection string: '' @ [quote] @ ''host=nowhere'' @ [quote, newline])),
      ex_refused\<lparr>status_replies := [],
        calls := [Called_PQconnectdb ''host=nowhere password=secret'' (Some 1),
          Called_PQstatus CONNECTION_BAD, Called_PQstatus CONNECTION_BAD,
          Called_PQfinish (Some 1)]\<rparr>)
   \<and> last (calls (snd (Connection_ctor ''host=nowhere'' (Some ''secret'') ex_refused)))
       = Called_PQfinish (Some 1)
   \<and> ctor_status_text ex_refused = ''Bad connection''"
proof -
  have h: "Connection_ctor ''host=nowhere'' (Some ''secret'') ex_refused =
     (Inl (datasource_exception (''Postgis Plugin: Bad connection'' @ [newline]
        @ ''Connection string: '' @ [quote] @ ''host=nowhere'' @ [quote, newline])),
      ex_refused\<lparr>status_replies := [],
        calls := [Called_PQconnectdb ''host=nowhere password=secret'' (Some 1),
          Called_PQstatus CONNECTION_BAD, Called_PQstatus CONNECTION_BAD,
          Called_PQfinish (Some 1)]\<rparr>)"
    by (simp add: Connection_ctor_def ex_refused_def ex_libpq_def PQconnectdb_def PQstatus_def
          status_def isOK_def close_def PQfinish_def)
  show ?thesis
    using Connection_ctor_failure [THEN conjunct2, THEN conjunct2, THEN conjunct2,
        THEN conjunct2, THEN conjunct2, rule_format, OF h] h
    by (simp add: ex_refused_def ex_libpq_def)
qed

text \<open>C4 as stated fails: the server refuses the connection (\<open>CONNECTION_BAD\<close>) with
  the diagnostic \<^verbatim>\<open>could not connect to server\<close>; the exception text says
  \<^verbatim>\<open>Bad connection\<close> and does not contain the diagnostic.\<close>

theorem Connection_ctor_message_counterexample:
  "fst (PQerrorMessage (Some 1) ex_refused) = ''could not connect to server''
   \<and> fst (Connection_ctor ''host=nowhere'' None ex_refused) =
       Inl (datasource_exception (''Postgis Plugin: Bad connection'' @ [newline]
         @ ''Connection string: '' @ [quote] @ ''host=nowhere'' @ [quote, newline]))
   \<and> \<not> sublist ''could not connect to server''
         (what (projl (fst (Connection_ctor ''host=nowhere'' None ex_refused))))"
  by (simp add: Connection_ctor_def ex_refused_def ex_libpq_def PQconnectdb_def PQstatus_def
        status_def isOK_def close_def PQfinish_def PQerrorMessage_def sublist_Cons_right
        prefix_Cons)

subsection \<open>executeQuery\<close>

lemma nofail_simps [simp]:
  "nofail []"
  "nofail (x # xs) = (\<not> select_failed x \<and> nofail xs)"
  "nofail (xs @ ys) = (nofail xs \<and> nofail ys)"
  by (simp_all add: nofail_def)

lemma silent_simps [simp]:
  "silent []"
  "silent (xs @ ys) = (silent xs \<and> silent ys)"
  by (auto simp: silent_def obtained_append released_append)

lemma silent_Cons [simp]:
  "silent (Called_PQconsumeInput r # cs) = silent cs"
  "silent (Called_PQisBusy r # cs) = silent cs"
  "silent (Called_wall_clock_elapsed r # cs) = silent cs"
  "silent (Called_select nfds tv_sec tv_usec (ret, etext) # cs) = (\<not> ret < 1 \<and> silent cs)"
  "silent (Called_PQstatus st # cs) = silent cs"
  "silent (Called_PQerrorMessage m # cs) = silent cs"
  "silent (Called_PQsendQuery q r # cs) = silent cs"
  "silent (Called_PQsendQueryParams q r # cs) = silent cs"
  "silent (Called_PQsocket r # cs) = silent cs"
  by (auto simp: silent_def)

lemma close_fst: "close c w = (c1, w1) \<Longrightarrow> c1 = c\<lparr>closed_m := True\<rparr>"
  by (auto simp: close_def split: if_splits)

lemma silent_nofail: "silent cs \<Longrightarrow> nofail cs"
  by (simp add: silent_def)

lemma wait_throw_prepend:
  assumes "nofail p" and "wait_throw sql c new e c1"
  shows "wait_throw sql c (p @ new) e c1"
proof -
  from assms(2) obtain before nfds tv_sec tv_usec ret etext where
    "new = before @ Called_select nfds tv_sec tv_usec (ret, etext)
             # (if closed_m c then [] else [Called_PQfinish (conn_m c)])"
    "nofail before" "ret < 1" "e = datasource_exception (wait_text sql ret etext)"
    "c1 = c\<lparr>closed_m := True\<rparr>"
    unfolding wait_throw_def by blast
  with assms(1) show ?thesis
    unfolding wait_throw_def
    by (intro exI [of _ "p @ before"] exI [of _ nfds] exI [of _ tv_sec] exI [of _ tv_usec]
          exI [of _ ret] exI [of _ etext]) simp
qed

lemma PQconsumeInput_calls:
  "PQconsumeInput conn w = (r, w1) \<Longrightarrow> calls w1 = calls w @ [Called_PQconsumeInput r]"
  by (auto simp: PQconsumeInput_def split: list.splits)

lemma PQisBusy_calls:
  "PQisBusy conn w = (r, w1) \<Longrightarrow> calls w1 = calls w @ [Called_PQisBusy r]"
  by (auto simp: PQisBusy_def split: list.splits)

lemma wall_clock_elapsed_calls:
  "wall_clock_elapsed w = (r, w1) \<Longrightarrow> calls w1 = calls w @ [Called_wall_clock_elapsed r]"
  by (auto simp: wall_clock_elapsed_def split: list.splits)

lemma select_calls:
  "select nfds tv_sec tv_usec w = (r, w1) \<Longrightarrow> calls w1 = calls w @ [Called_select nfds tv_sec tv_usec r]"
  by (auto simp: select_def split: list.splits)

lemma PQgetResult_calls:
  "PQgetResult conn w = (r, w1) \<Longrightarrow> calls w1 = calls w @ [Called_PQgetResult r]"
  by (auto simp: PQgetResult_def split: list.splits)

lemma executeQuery_wait_spec:
  assumes "executeQuery_wait sql sock c w = (eo, c1, w1)"
  shows "\<exists>new. calls w1 = calls w @ new
    \<and> (case eo of None \<Rightarrow> c1 = c \<and> silent new | Some e \<Rightarrow> wait_throw sql c new e c1)"
proof -
  obtain busy wa where b: "PQisBusy (conn_m c) w = (busy, wa)"
    by (cases "PQisBusy (conn_m c) w")
  note ca = PQisBusy_calls [OF b]
  show ?thesis
  proof (cases "busy = 0")
    case True
    with assms b ca show ?thesis
      by (simp add: executeQuery_wait_def silent_def)
  next
    case False
    obtain elapsed wb where e: "wall_clock_elapsed wa = (elapsed, wb)"
      by (cases "wall_clock_elapsed wa")
    note cb = wall_clock_elapsed_calls [OF e]
    obtain ret etext wc where s:
      "select (sock + 1) 0 ((statement_timeout_m c - elapsed) * 1000) wb = ((ret, etext), wc)"
      by (cases "select (sock + 1) 0 ((statement_timeout_m c - elapsed) * 1000) wb") auto
    note cc = select_calls [OF s]
    show ?thesis
    proof (cases "ret < 1")
      case True
      obtain cd wd where cl: "close c wc = (cd, wd)" by (cases "close c wc")
      with assms b e s False True
      have "eo = Some (datasource_exception (wait_text sql ret etext))" "c1 = cd" "w1 = wd"
        by (auto simp: executeQuery_wait_def wait_text_def Let_def)
      with close_fst [OF cl] close_env(4) [OF cl]
      have r: "eo = Some (datasource_exception (wait_text sql ret etext))"
        "c1 = c\<lparr>closed_m := True\<rparr>"
        "calls w1 = calls wc @ (if closed_m c then [] else [Called_PQfinish (conn_m c)])"
        by simp_all
      have "wait_throw sql c
          ([Called_PQisBusy busy, Called_wall_clock_elapsed elapsed]
            @ Called_select (sock + 1) 0 ((statement_timeout_m c - elapsed) * 1000) (ret, etext)
            # (if closed_m c then [] else [Called_PQfinish (conn_m c)]))
          (datasource_exception (wait_text sql ret etext)) (c\<lparr>closed_m := True\<rparr>)"
        unfolding wait_throw_def using True
        by (intro exI [of _ "[Called_PQisBusy busy, Called_wall_clock_elapsed elapsed]"]
              exI [of _ "sock + 1"] exI [of _ 0]
              exI [of _ "(statement_timeout_m c - elapsed) * 1000"]
              exI [of _ ret] exI [of _ etext]) simp
      with r ca cb cc show ?thesis
        by (intro exI [of _ "[Called_PQisBusy busy, Called_wall_clock_elapsed elapsed]
            @ Called_select (sock + 1) 0 ((statement_timeout_m c - elapsed) * 1000) (ret, etext)
            # (if closed_m c then [] else [Called_PQfinish (conn_m c)])"]) simp
    next
      case ok: False
      with assms b e s False have "eo = None" "c1 = c" "w1 = wc"
        by (auto simp: executeQuery_wait_def Let_def)
      with ca cb cc ok show ?thesis
        by (simp add: silent_def)
    qed
  qed
qed

lemma executeQuery_do_while_spec:
  "executeQuery_do_while sql sock c w = (r, c1, w1) \<Longrightarrow>
   \<exists>new. calls w1 = calls w @ new
     \<and> (case r of Inr success \<Rightarrow> c1 = c \<and> silent new | Inl e \<Rightarrow> wait_throw sql c new e c1)"
proof (induction sql sock c w arbitrary: r c1 w1 rule: executeQuery_do_while.induct)
  case (1 sql sock c w)
  obtain success wa where ci: "PQconsumeInput (conn_m c) w = (success, wa)"
    by (cases "PQconsumeInput (conn_m c) w")
  note ca = PQconsumeInput_calls [OF ci]
  have sa: "silent [Called_PQconsumeInput success]"
    by (simp add: silent_def)
  show ?case
  proof (cases "success = 0")
    case True
    with "1.prems" ci ca show ?thesis
      by (auto simp: executeQuery_do_while.simps [of sql sock c w] silent_def)
  next
    case False
    obtain eo cb wb where wt: "executeQuery_wait sql sock c wa = (eo, cb, wb)"
      by (cases "executeQuery_wait sql sock c wa")
    from executeQuery_wait_spec [OF wt] obtain nb where nb: "calls wb = calls wa @ nb"
      "case eo of None \<Rightarrow> cb = c \<and> silent nb | Some e \<Rightarrow> wait_throw sql c nb e cb"
      by blast
    show ?thesis
    proof (cases eo)
      case (Some e)
      with "1.prems" ci wt False have r: "r = Inl e" "c1 = cb" "w1 = wb"
        by (simp_all add: executeQuery_do_while.simps [of sql sock c w])
      from nb Some have "wait_throw sql c ([Called_PQconsumeInput success] @ nb) e cb"
        by (intro wait_throw_prepend) simp_all
      with r ca nb(1) show ?thesis
        by (intro exI [of _ "[Called_PQconsumeInput success] @ nb"]) simp
    next
      case None
      with nb have cb: "cb = c" and snb: "silent nb" by simp_all
      obtain busy wc where ib: "PQisBusy (conn_m cb) wb = (busy, wc)"
        by (cases "PQisBusy (conn_m cb) wb")
      note cc = PQisBusy_calls [OF ib]
      have sc: "silent [Called_PQisBusy busy]"
        by (simp add: silent_def)
      show ?thesis
      proof (cases "busy = 0")
        case True
        with "1.prems" ci wt ib False None have "r = Inr success" "c1 = cb" "w1 = wc"
          by (simp_all add: executeQuery_do_while.simps [of sql sock c w])
        with ca nb(1) cc cb snb sa sc show ?thesis
          by (intro exI [of _ "[Called_PQconsumeInput success] @ nb @ [Called_PQisBusy busy]"])
             simp
      next
        case busy: False
        from "1.prems" ci wt ib False None busy
        have "executeQuery_do_while sql sock cb wc = (r, c1, w1)"
          by (simp add: executeQuery_do_while.simps [of sql sock c w])
        then have "\<exists>new. calls w1 = calls wc @ new
            \<and> (case r of Inr success \<Rightarrow> c1 = cb \<and> silent new | Inl e \<Rightarrow> wait_throw sql cb new e c1)"
          by (rule "1.IH" [OF ci [symmetric] refl False wt [symmetric] None refl
                ib [symmetric] refl busy])
        then obtain nd where nd: "calls w1 = calls wc @ nd"
          "case r of Inr success \<Rightarrow> c1 = cb \<and> silent nd | Inl e \<Rightarrow> wait_throw sql cb nd e c1"
          by blast
        let ?p = "[Called_PQconsumeInput success] @ nb @ [Called_PQisBusy busy]"
        have sp: "silent ?p" using sa snb sc by simp
        have "case r of Inr success \<Rightarrow> c1 = c \<and> silent (?p @ nd)
                | Inl e \<Rightarrow> wait_throw sql c (?p @ nd) e c1"
        proof (cases r)
          case (Inl e)
          with nd cb have "wait_throw sql c nd e c1" by simp
          with sp have "wait_throw sql c (?p @ nd) e c1"
            by (intro wait_throw_prepend silent_nofail)
          with Inl show ?thesis by simp
        next
          case (Inr s)
          with nd cb sp show ?thesis by simp
        qed
        with ca nb(1) cc nd(1) show ?thesis
          by (intro exI [of _ "?p @ nd"]) simp
      qed
    qed
  qed
qed

lemma clear_held:
  "calls (case result of None \<Rightarrow> w | Some r \<Rightarrow> PQclear r w) = calls w @ map Called_PQclear (held result)"
  "obtained (map Called_PQclear (held result)) = []"
  "released (map Called_PQclear (held result)) = held result"
  "nofail (map Called_PQclear (held result))"
  by (simp_all add: held_def PQclear_def split: option.splits)

lemma executeQuery_loop_spec:
  "executeQuery_loop sql sock ok result c w = (r, c1, w1) \<Longrightarrow>
   \<exists>new. calls w1 = calls w @ new
     \<and> (case r of
          Inl e \<Rightarrow> wait_throw sql c new e c1
        | Inr (ok', result') \<Rightarrow>
            c1 = c \<and> nofail new
            \<and> result' = (if obtained new = [] then result else Some (last (obtained new)))
            \<and> released new = butlast (held result @ obtained new)
            \<and> (ok' \<longrightarrow> (if obtained new = [] then ok
                         else PQresultStatus (last (obtained new)) = PGRES_TUPLES_OK)))"
proof (induction sql sock ok result c w arbitrary: r c1 w1 rule: executeQuery_loop.induct)
  case (1 sql sock ok result c w)
  obtain d ca wa where dw: "executeQuery_do_while sql sock c w = (d, ca, wa)"
    by (cases "executeQuery_do_while sql sock c w")
  from executeQuery_do_while_spec [OF dw] obtain na where na: "calls wa = calls w @ na"
    "case d of Inr s \<Rightarrow> ca = c \<and> silent na | Inl e \<Rightarrow> wait_throw sql c na e ca"
    by blast
  show ?case
  proof (cases d)
    case (Inl e)
    with "1.prems" dw have "r = Inl e" "c1 = ca" "w1 = wa"
      by (simp_all add: executeQuery_loop.simps [of sql sock ok result c w])
    with na Inl show ?thesis
      by (intro exI [of _ na]) simp
  next
    case (Inr success)
    with na have ca: "ca = c" and sna: "silent na" by simp_all
    show ?thesis
    proof (cases "success = 0")
      case True
      with "1.prems" dw Inr have "r = Inr (False, result)" "c1 = ca" "w1 = wa"
        by (simp_all add: executeQuery_loop.simps [of sql sock ok result c w])
      with na(1) ca sna show ?thesis
        by (intro exI [of _ na]) (simp add: silent_def held_def split: option.splits)
    next
      case False
      obtain tmp wb where g: "PQgetResult (conn_m ca) wa = (tmp, wb)"
        by (cases "PQgetResult (conn_m ca) wa")
      note cb = PQgetResult_calls [OF g]
      show ?thesis
      proof (cases tmp)
        case None
        with "1.prems" dw Inr False g have "r = Inr (ok, result)" "c1 = ca" "w1 = wb"
          by (simp_all add: executeQuery_loop.simps [of sql sock ok result c w])
        with na(1) ca sna cb None show ?thesis
          by (intro exI [of _ "na @ [Called_PQgetResult None]"])
             (simp add: silent_def held_def obtained_append released_append split: option.splits)
      next
        case (Some t)
        define wc where "wc = (case result of None \<Rightarrow> wb | Some r \<Rightarrow> PQclear r wb)"
        have cc: "calls wc = calls wb @ map Called_PQclear (held result)"
          unfolding wc_def by (rule clear_held)
        from "1.prems" dw Inr False g Some
        have rec: "executeQuery_loop sql sock (PQresultStatus t = PGRES_TUPLES_OK) (Some t) ca wc
            = (r, c1, w1)"
          by (simp add: executeQuery_loop.simps [of sql sock ok result c w] wc_def)
        have dw': "(Inr success, ca, wa) = executeQuery_do_while sql sock c w"
          using dw Inr by simp
        have g': "(Some t, wb) = PQgetResult (conn_m ca) wa"
          using g Some by simp
        from "1.IH" [OF dw' refl refl False refl g' refl refl wc_def rec]
        obtain nd where nd: "calls w1 = calls wc @ nd"
          "case r of
             Inl e \<Rightarrow> wait_throw sql ca nd e c1
           | Inr (ok', result') \<Rightarrow>
               c1 = ca \<and> nofail nd
               \<and> result' = (if obtained nd = [] then Some t else Some (last (obtained nd)))
               \<and> released nd = butlast (held (Some t) @ obtained nd)
               \<and> (ok' \<longrightarrow> (if obtained nd = [] then PQresultStatus t = PGRES_TUPLES_OK
                            else PQresultStatus (last (obtained nd)) = PGRES_TUPLES_OK))"
          by blast
        let ?p = "na @ [Called_PQgetResult (Some t)] @ map Called_PQclear (held result)"
        have np: "nofail ?p"
          using sna by (simp add: silent_def clear_held)
        have op: "obtained ?p = [t]" "released ?p = held result"
          using sna by (simp_all add: silent_def clear_held obtained_append released_append)
        have cw: "calls w1 = calls w @ ?p @ nd"
          using na(1) cb cc nd(1) Some by simp
        have "case r of
            Inl e \<Rightarrow> wait_throw sql c (?p @ nd) e c1
          | Inr (ok', result') \<Rightarrow>
              c1 = c \<and> nofail (?p @ nd)
              \<and> result' = (if obtained (?p @ nd) = [] then result
                           else Some (last (obtained (?p @ nd))))
              \<and> released (?p @ nd) = butlast (held result @ obtained (?p @ nd))
              \<and> (ok' \<longrightarrow> (if obtained (?p @ nd) = [] then ok
                           else PQresultStatus (last (obtained (?p @ nd))) = PGRES_TUPLES_OK))"
        proof (cases r)
          case (Inl e)
          with nd(2) ca have "wait_throw sql c nd e c1" by simp
          with np have "wait_throw sql c (?p @ nd) e c1"
            by (rule wait_throw_prepend)
          with Inl show ?thesis by simp
        next
          case (Inr v)
          obtain ok' result' where v: "v = (ok', result')" by (cases v)
          from nd(2) Inr v ca have f: "c1 = c" "nofail nd"
            "result' = (if obtained nd = [] then Some t else Some (last (obtained nd)))"
            "released nd = butlast (t # obtained nd)"
            "ok' \<longrightarrow> (if obtained nd = [] then PQresultStatus t = PGRES_TUPLES_OK
                      else PQresultStatus (last (obtained nd)) = PGRES_TUPLES_OK)"
            by (simp_all add: held_def)
          have o: "obtained (?p @ nd) = t # obtained nd"
            "released (?p @ nd) = held result @ butlast (t # obtained nd)"
            using op f(4) by (simp_all only: obtained_append released_append append_Cons append_Nil)
          have "nofail (?p @ nd)"
            using np f(2) by simp
          with Inr v f o show ?thesis
            by (simp add: butlast_append)
        qed
        with cw show ?thesis
          by (intro exI [of _ "?p @ nd"]) simp
      qed
    qed
  qed
qed

lemma nofail_select:
  "nofail cs \<Longrightarrow> Called_select nfds tv_sec tv_usec (ret, etext) \<in> set cs \<Longrightarrow> \<not> ret < 1"
  by (fastforce simp: nofail_def list_all_iff)

lemma status_silent:
  assumes "status c w = (s, w1)"
  shows "\<exists>new. calls w1 = calls w @ new \<and> silent new"
  using assms
  by (auto simp: status_def isOK_def PQstatus_def PQerrorMessage_def Let_def silent_def
        split: if_splits list.splits prod.splits)

lemma send_silent:
  assumes "(if type = 1 then PQsendQueryParams conn sql w else PQsendQuery conn sql w) = (sent, w1)"
  shows "\<exists>new. calls w1 = calls w @ new \<and> silent new"
  using assms
  by (auto simp: PQsendQueryParams_def PQsendQuery_def silent_def split: if_splits list.splits)

lemma PQsocket_calls:
  "PQsocket conn w = (r, w1) \<Longrightarrow> calls w1 = calls w @ [Called_PQsocket r]"
  by (auto simp: PQsocket_def split: list.splits)

lemma executeQuery_spec:
  assumes "executeQuery sql type c w = (r, c', w')"
  shows "\<exists>new. calls w' = calls w @ new
    \<and> (nofail new \<and> c' = c \<or> (\<exists>e. r = Inl e \<and> wait_throw sql c new e c'))"
proof -
  obtain sent w1 where send:
    "(if type = 1 then PQsendQueryParams (conn_m c) sql w else PQsendQuery (conn_m c) sql w)
       = (sent, w1)"
    by (cases "if type = 1 then PQsendQueryParams (conn_m c) sql w else PQsendQuery (conn_m c) sql w")
  from send_silent [OF send] obtain n1 where n1: "calls w1 = calls w @ n1" "silent n1"
    by blast
  obtain sock w2 where sock: "PQsocket (conn_m c) w1 = (sock, w2)"
    by (cases "PQsocket (conn_m c) w1")
  note n2 = PQsocket_calls [OF sock]
  show ?thesis
  proof (cases "(if sock < 0 then 0 else sent) = 0")
    case True
    obtain s w3 where st: "status c w2 = (s, w3)" by (cases "status c w2")
    from status_silent [OF st] obtain n3 where n3: "calls w3 = calls w2 @ n3" "silent n3"
      by blast
    from assms send sock True st have "c' = c" "w' = w3"
      by (auto simp: executeQuery_def Let_def)
    with n1 n2 n3 show ?thesis
      by (intro exI [of _ "n1 @ [Called_PQsocket sock] @ n3"]) (simp add: silent_def)
  next
    case False
    obtain lr c1 w3 where loop: "executeQuery_loop sql sock False None c w2 = (lr, c1, w3)"
      by (cases "executeQuery_loop sql sock False None c w2")
    from executeQuery_loop_spec [OF loop] obtain L where L0: "calls w3 = calls w2 @ L"
      and L1: "case lr of
          Inl e \<Rightarrow> wait_throw sql c L e c1
        | Inr (ok', result') \<Rightarrow>
            c1 = c \<and> nofail L
            \<and> result' = (if obtained L = [] then None else Some (last (obtained L)))
            \<and> released L = butlast (held None @ obtained L)
            \<and> (ok' \<longrightarrow> (if obtained L = [] then False
                         else PQresultStatus (last (obtained L)) = PGRES_TUPLES_OK))"
      by blast
    have L: "calls w3 = calls w2 @ L"
      "case lr of
         Inl e \<Rightarrow> wait_throw sql c L e c1
       | Inr (ok', result') \<Rightarrow> c1 = c \<and> nofail L"
      using L0 L1 by (auto split: sum.splits prod.splits)
    have np: "nofail (n1 @ [Called_PQsocket sock])"
      using n1 by (simp add: silent_def)
    show ?thesis
    proof (cases lr)
      case (Inl e)
      with assms send sock False loop have r: "r = Inl e" "c' = c1" "w' = w3"
        by (auto simp: executeQuery_def Let_def)
      from L Inl have "wait_throw sql c L e c1" by simp
      with np have "wait_throw sql c ((n1 @ [Called_PQsocket sock]) @ L) e c1"
        by (rule wait_throw_prepend)
      with r n1 n2 L(1) show ?thesis
        by (intro exI [of _ "(n1 @ [Called_PQsocket sock]) @ L"]) simp
    next
      case (Inr v)
      obtain ok result where v: "v = (ok, result)" by (cases v)
      from L Inr v have c1: "c1 = c" and nL: "nofail L" by simp_all
      show ?thesis
      proof (cases ok)
        case True
        with assms send sock False loop Inr v have "c' = c1" "w' = w3"
          by (auto simp: executeQuery_def Let_def)
        with n1 n2 L(1) c1 nL np show ?thesis
          by (intro exI [of _ "(n1 @ [Called_PQsocket sock]) @ L"]) simp
      next
        case nok: False
        obtain s w4 where st: "status c1 w3 = (s, w4)" by (cases "status c1 w3")
        from status_silent [OF st] obtain n4 where n4: "calls w4 = calls w3 @ n4" "silent n4"
          by blast
        from assms send sock False loop Inr v nok st
        have "c' = c1" "w' = (case result of None \<Rightarrow> w4 | Some r \<Rightarrow> PQclear r w4)"
          by (auto simp: executeQuery_def Let_def split: option.splits)
        with n1 n2 L(1) c1 nL np n4 clear_held(1) [where result = result and w = w4]
          clear_held(4) [where result = result]
        show ?thesis
          by (intro exI [of _ "(n1 @ [Called_PQsocket sock]) @ L @ n4
                @ map Called_PQclear (held result)"]) (simp add: silent_def)
      qed
    qed
  qed
qed

text \<open>C1. For every SQL text: when, during \<open>executeQuery\<close>, a call of \<open>select\<close> returns
  \<open>ret < 1\<close> (0: the wait expired; negative: the primitive failed, with error text
  \<open>strerror_errno\<close>), the method throws the exception whose text is \<^verbatim>\<open>Postgis Plugin: \<close>,
  then \<^verbatim>\<open>timeout \<close> (on expiry) or \<^verbatim>\<open>select: \<close> and the error text, then the SQL text
  between quotes. \<open>closed_\<close> is set, and on a connection that was not closed the failed
  \<open>select\<close> is followed by \<open>PQfinish\<close> of the handle as the last call before the
  exception. Afterwards \<open>isOK()\<close> is false, in any environment, without asking the
  handle. (All exceptions of the class are \<open>mapnik::datasource_exception\<close>; the two
  kinds of failure differ by their text.)\<close>

theorem executeQuery_wait_failure:
  assumes run: "executeQuery sql type c w = (r, c', w')"
    and ev: "Called_select nfds tv_sec tv_usec (ret, strerror_errno)
               \<in> set (drop (length (calls w)) (calls w'))"
    and ret: "ret < 1"
  shows "r = Inl (datasource_exception
               (''Postgis Plugin: ''
                  @ (if ret = 0 then ''timeout '' else ''select: '' @ strerror_errno)
                  @ [newline] @ ''in executeQuery Full sql was: '' @ [quote] @ sql
                  @ [quote, newline]))
    \<and> c' = c\<lparr>closed_m := True\<rparr>
    \<and> (\<not> closed_m c \<longrightarrow>
         last (calls w') = Called_PQfinish (conn_m c)
         \<and> last (butlast (calls w')) = Called_select nfds tv_sec tv_usec (ret, strerror_errno))
    \<and> (closed_m c \<longrightarrow>
         last (calls w') = Called_select nfds tv_sec tv_usec (ret, strerror_errno))
    \<and> isOK c' w'' = (False, w'')"
proof -
  from executeQuery_spec [OF run] obtain new where new: "calls w' = calls w @ new"
    "nofail new \<and> c' = c \<or> (\<exists>e. r = Inl e \<and> wait_throw sql c new e c')"
    by blast
  from ev new(1) have mem: "Called_select nfds tv_sec tv_usec (ret, strerror_errno) \<in> set new"
    by simp
  with ret have "\<not> nofail new"
    using nofail_select by blast
  with new(2) obtain e where e: "r = Inl e" "wait_throw sql c new e c'"
    by blast
  then obtain before n' s' u' ret' etext' where w:
    "new = before @ Called_select n' s' u' (ret', etext')
             # (if closed_m c then [] else [Called_PQfinish (conn_m c)])"
    "nofail before" "ret' < 1" "e = datasource_exception (wait_text sql ret' etext')"
    "c' = c\<lparr>closed_m := True\<rparr>"
    unfolding wait_throw_def by blast
  from w(2) ret have "Called_select nfds tv_sec tv_usec (ret, strerror_errno) \<notin> set before"
    using nofail_select by blast
  with mem w(1) have same: "Called_select n' s' u' (ret', etext')
      = Called_select nfds tv_sec tv_usec (ret, strerror_errno)"
    by (auto split: if_splits)
  from new(1) w(1) same have "calls w' = calls w @ before
      @ Called_select nfds tv_sec tv_usec (ret, strerror_errno)
      # (if closed_m c then [] else [Called_PQfinish (conn_m c)])"
    by simp
  then have l: "\<not> closed_m c \<longrightarrow>
         last (calls w') = Called_PQfinish (conn_m c)
         \<and> last (butlast (calls w')) = Called_select nfds tv_sec tv_usec (ret, strerror_errno)"
    "closed_m c \<longrightarrow> last (calls w') = Called_select nfds tv_sec tv_usec (ret, strerror_errno)"
    by (simp_all add: butlast_append)
  from w(5) have "isOK c' w'' = (False, w'')"
    by (simp add: isOK_def)
  with e(1) w(4,5) same l show ?thesis
    by (simp add: wait_text_def)
qed

theorem executeQuery_wait_failure_witness:
  "executeQuery ''SELECT 1'' 0 ex_conn ex_timeout =
     (Inl (datasource_exception (''Postgis Plugin: timeout '' @ [newline]
        @ ''in executeQuery Full sql was: '' @ [quote] @ ''SELECT 1'' @ [quote, newline])),
      ex_conn\<lparr>closed_m := True\<rparr>,
      ex_timeout\<lparr>sendQuery_replies := [], socket_replies := [], consumeInput_replies := [1, 1],
        isBusy_replies := [0, 0, 0], elapsed_replies := [], select_replies := [],
        calls := [Called_PQsendQuery ''SELECT 1'' 1, Called_PQsocket 5, Called_PQconsumeInput 1,
          Called_PQisBusy 1, Called_wall_clock_elapsed 7, Called_select 6 0 3993000 (0, []),
          Called_PQfinish (Some 1)]\<rparr>)
   \<and> fst (isOK (ex_conn\<lparr>closed_m := True\<rparr>) ex_libpq) = False"
proof -
  have h: "executeQuery ''SELECT 1'' 0 ex_conn ex_timeout =
     (Inl (datasource_exception (''Postgis Plugin: timeout '' @ [newline]
        @ ''in executeQuery Full sql was: '' @ [quote] @ ''SELECT 1'' @ [quote, newline])),
      ex_conn\<lparr>closed_m := True\<rparr>,
      ex_timeout\<lparr>sendQuery_replies := [], socket_replies := [], consumeInput_replies := [1, 1],
        isBusy_replies := [0, 0, 0], elapsed_replies := [], select_replies := [],
        calls := [Called_PQsendQuery ''SELECT 1'' 1, Called_PQsocket 5, Called_PQconsumeInput 1,
          Called_PQisBusy 1, Called_wall_clock_elapsed 7, Called_select 6 0 3993000 (0, []),
          Called_PQfinish (Some 1)]\<rparr>)"
    by (simp add: executeQuery_def ex_conn_def ex_timeout_def ex_libpq_def PQsendQuery_def
          PQsocket_def executeQuery_loop.simps executeQuery_do_while.simps executeQuery_wait_def
          PQconsumeInput_def PQisBusy_def wall_clock_elapsed_def select_def close_def
          PQfinish_def)
  have ev: "Called_select 6 0 3993000 (0, []) \<in> set (drop (length (calls ex_timeout))
      (calls (ex_timeout\<lparr>sendQuery_replies := [], socket_replies := [],
        consumeInput_replies := [1, 1],
        isBusy_replies := [0, 0, 0], elapsed_replies := [], select_replies := [],
        calls := [Called_PQsendQuery ''SELECT 1'' 1, Called_PQsocket 5, Called_PQconsumeInput 1,
          Called_PQisBusy 1, Called_wall_clock_elapsed 7, Called_select 6 0 3993000 (0, []),
          Called_PQfinish (Some 1)]\<rparr>)))"
    by (simp add: ex_timeout_def ex_libpq_def)
  have r: "(0::int) < 1" by simp
  show ?thesis
    using executeQuery_wait_failure [OF h ev r, of ex_libpq] h
    by simp
qed

lemma executeQuery_wait_replies:
  "executeQuery_wait sql sock c w = (r, c1, w1) \<Longrightarrow> getResult_replies w1 = getResult_replies w"
  by (auto simp: PQisBusy_def executeQuery_wait_def wall_clock_elapsed_def
        select_def close_def PQfinish_def Let_def
        split: list.splits if_splits prod.splits)

text \<open>The do-while leaves the queue of results alone, and when it is left by its
  \<open>break\<close> the last call made is the failed \<open>PQconsumeInput\<close>.\<close>

lemma executeQuery_do_while_left:
  "executeQuery_do_while sql sock c w = (r, c1, w1) \<Longrightarrow>
   getResult_replies w1 = getResult_replies w
   \<and> (r = Inr 0 \<longrightarrow> (\<exists>pre. calls w1 = calls w @ pre @ [Called_PQconsumeInput 0]))"
proof (induction sql sock c w arbitrary: r c1 w1 rule: executeQuery_do_while.induct)
  case (1 sql sock c w)
  obtain success wa where ci: "PQconsumeInput (conn_m c) w = (success, wa)"
    by (cases "PQconsumeInput (conn_m c) w")
  note ca = PQconsumeInput_calls [OF ci]
  have ga: "getResult_replies wa = getResult_replies w"
    using ci by (auto simp: PQconsumeInput_def split: list.splits)
  show ?case
  proof (cases "success = 0")
    case True
    with "1.prems" ci have "r = Inr 0" "w1 = wa"
      by (auto simp: executeQuery_do_while.simps [of sql sock c w])
    with ca ga True show ?thesis
      by (intro conjI impI exI [of _ "[]"]) simp_all
  next
    case False
    obtain eo cb wb where wt: "executeQuery_wait sql sock c wa = (eo, cb, wb)"
      by (cases "executeQuery_wait sql sock c wa")
    note gb = executeQuery_wait_replies [OF wt]
    from executeQuery_wait_spec [OF wt] obtain nb where nb: "calls wb = calls wa @ nb"
      by blast
    show ?thesis
    proof (cases eo)
      case (Some e)
      with "1.prems" ci wt False have "r = Inl e" "w1 = wb"
        by (simp_all add: executeQuery_do_while.simps [of sql sock c w])
      with ga gb show ?thesis by simp
    next
      case None
      obtain busy wc where ib: "PQisBusy (conn_m cb) wb = (busy, wc)"
        by (cases "PQisBusy (conn_m cb) wb")
      note cc = PQisBusy_calls [OF ib]
      have gc: "getResult_replies wc = getResult_replies wb"
        using ib by (auto simp: PQisBusy_def split: list.splits)
      show ?thesis
      proof (cases "busy = 0")
        case True
        with "1.prems" ci wt ib False None have "r = Inr success" "w1 = wc"
          by (simp_all add: executeQuery_do_while.simps [of sql sock c w])
        with ga gb gc False show ?thesis by simp
      next
        case busy: False
        from "1.prems" ci wt ib False None busy
        have "executeQuery_do_while sql sock cb wc = (r, c1, w1)"
          by (simp add: executeQuery_do_while.simps [of sql sock c w])
        then have ih: "getResult_replies w1 = getResult_replies wc
            \<and> (r = Inr 0 \<longrightarrow> (\<exists>pre. calls w1 = calls wc @ pre @ [Called_PQconsumeInput 0]))"
          by (rule "1.IH" [OF ci [symmetric] refl False wt [symmetric] None refl
                ib [symmetric] refl busy])
        have "\<exists>pre. calls w1 = calls w @ pre @ [Called_PQconsumeInput 0]" if "r = Inr 0"
        proof -
          from ih that obtain pre where "calls w1 = calls wc @ pre @ [Called_PQconsumeInput 0]"
            by blast
          with ca nb cc show ?thesis
            by (intro exI [of _ "[Called_PQconsumeInput success] @ nb @ [Called_PQisBusy busy] @ pre"])
               simp
        qed
        with ih ga gb gc show ?thesis by simp
      qed
    qed
  qed
qed

text \<open>How the drain loop is left when no wait failed: by the NULL of \<open>PQgetResult\<close> or by
  a failed \<open>PQconsumeInput\<close>. The local \<open>ok\<close> is true exactly in the first case with a
  last result of status \<open>PGRES_TUPLES_OK\<close> (or, with no result retrieved, an \<open>ok\<close> that was
  true on entry). The results retrieved are the first of the queue, all of it in the
  first case.\<close>

lemma executeQuery_loop_left:
  "executeQuery_loop sql sock ok result c w = (Inr (ok', result'), c1, w1) \<Longrightarrow>
   \<exists>L. calls w1 = calls w @ L \<and> L \<noteq> []
     \<and> (last L = Called_PQgetResult None \<or> last L = Called_PQconsumeInput 0)
     \<and> ok' = (last L = Called_PQgetResult None
              \<and> (if obtained L = [] then ok
                  else PQresultStatus (last (obtained L)) = PGRES_TUPLES_OK))
     \<and> prefix (obtained L) (map the (queued w))
     \<and> (last L = Called_PQgetResult None \<longrightarrow> obtained L = map the (queued w))"
proof (induction sql sock ok result c w arbitrary: ok' result' c1 w1
    rule: executeQuery_loop.induct)
  case (1 sql sock ok result c w)
  obtain d ca wa where dw: "executeQuery_do_while sql sock c w = (d, ca, wa)"
    by (cases "executeQuery_do_while sql sock c w")
  from executeQuery_do_while_spec [OF dw] obtain na where na: "calls wa = calls w @ na"
    "case d of Inr s \<Rightarrow> ca = c \<and> silent na | Inl e \<Rightarrow> wait_throw sql c na e ca"
    by blast
  from executeQuery_do_while_left [OF dw]
  have ga: "getResult_replies wa = getResult_replies w"
    and brk: "d = Inr 0 \<longrightarrow> (\<exists>pre. calls wa = calls w @ pre @ [Called_PQconsumeInput 0])"
    by simp_all
  show ?case
  proof (cases d)
    case (Inl e)
    with "1.prems" dw show ?thesis
      by (simp add: executeQuery_loop.simps [of sql sock ok result c w])
  next
    case (Inr success)
    with na have sna: "silent na" by simp
    then have ona: "obtained na = []" by (simp add: silent_def)
    show ?thesis
    proof (cases "success = 0")
      case True
      with "1.prems" dw Inr have r: "ok' = False" "w1 = wa"
        by (simp_all add: executeQuery_loop.simps [of sql sock ok result c w])
      from brk Inr True obtain pre where "calls wa = calls w @ pre @ [Called_PQconsumeInput 0]"
        by blast
      with na(1) have "na = pre @ [Called_PQconsumeInput 0]" by simp
      with r na(1) ona show ?thesis
        by (intro exI [of _ na]) simp
    next
      case False
      obtain tmp wb where g: "PQgetResult (conn_m ca) wa = (tmp, wb)"
        by (cases "PQgetResult (conn_m ca) wa")
      note cb = PQgetResult_calls [OF g]
      show ?thesis
      proof (cases tmp)
        case None
        with "1.prems" dw Inr False g have r: "ok' = ok" "w1 = wb"
          by (simp_all add: executeQuery_loop.simps [of sql sock ok result c w])
        from g None ga have q: "queued w = []"
          by (auto simp: PQgetResult_def queued_def split: list.splits)
        from r na(1) cb None ona q show ?thesis
          by (intro exI [of _ "na @ [Called_PQgetResult None]"])
             (simp add: obtained_append)
      next
        case (Some t)
        define wc where "wc = (case result of None \<Rightarrow> wb | Some r \<Rightarrow> PQclear r wb)"
        have cc: "calls wc = calls wb @ map Called_PQclear (held result)"
          unfolding wc_def by (rule clear_held)
        have gc: "getResult_replies wc = getResult_replies wb"
          by (simp add: wc_def PQclear_def split: option.splits)
        from g Some ga gc have q: "queued w = Some t # queued wc"
          by (auto simp: PQgetResult_def queued_def split: list.splits)
        from "1.prems" dw Inr False g Some
        have rec: "executeQuery_loop sql sock (PQresultStatus t = PGRES_TUPLES_OK) (Some t) ca wc
            = (Inr (ok', result'), c1, w1)"
          by (simp add: executeQuery_loop.simps [of sql sock ok result c w] wc_def)
        have dw': "(Inr success, ca, wa) = executeQuery_do_while sql sock c w"
          using dw Inr by simp
        have g': "(Some t, wb) = PQgetResult (conn_m ca) wa"
          using g Some by simp
        from "1.IH" [OF dw' refl refl False refl g' refl refl wc_def rec]
        obtain nd where nd: "calls w1 = calls wc @ nd" "nd \<noteq> []"
          "last nd = Called_PQgetResult None \<or> last nd = Called_PQconsumeInput 0"
          "ok' = (last nd = Called_PQgetResult None
              \<and> (if obtained nd = [] then PQresultStatus t = PGRES_TUPLES_OK
                  else PQresultStatus (last (obtained nd)) = PGRES_TUPLES_OK))"
          "prefix (obtained nd) (map the (queued wc))"
          "last nd = Called_PQgetResult None \<longrightarrow> obtained nd = map the (queued wc)"
          by blast
        let ?p = "na @ [Called_PQgetResult (Some t)] @ map Called_PQclear (held result)"
        have op: "obtained ?p = [t]"
          using ona by (simp add: clear_held obtained_append)
        have o: "obtained (?p @ nd) = t # obtained nd"
          using op by (simp only: obtained_append append_Cons append_Nil)
        have l: "last (?p @ nd) = last nd" "?p @ nd \<noteq> []"
          using nd(2) by simp_all
        have cw: "calls w1 = calls w @ ?p @ nd"
          using na(1) cb cc nd(1) Some by simp
        have "(?p @ nd) \<noteq> []
          \<and> (last (?p @ nd) = Called_PQgetResult None \<or> last (?p @ nd) = Called_PQconsumeInput 0)
          \<and> ok' = (last (?p @ nd) = Called_PQgetResult None
              \<and> (if obtained (?p @ nd) = [] then ok
                  else PQresultStatus (last (obtained (?p @ nd))) = PGRES_TUPLES_OK))
          \<and> prefix (obtained (?p @ nd)) (map the (queued w))
          \<and> (last (?p @ nd) = Called_PQgetResult None
               \<longrightarrow> obtained (?p @ nd) = map the (queued w))"
          unfolding o l(1) q using nd(2-6) by simp
        with cw show ?thesis
          by (intro exI [of _ "?p @ nd"]) simp
      qed
    qed
  qed
qed

text \<open>C3. When the submission succeeded and the drain loop of \<open>executeQuery\<close> is left
  with the locals \<open>ok\<close> and \<open>result\<close>: the results retrieved in the loop are
  \<open>obtained\<close> of its calls; the held \<open>result\<close> is the last of them (NULL when there was
  none), and all the earlier ones have been released, in order. The loop is left either
  by the NULL of \<open>PQgetResult\<close>, and then every queued result was retrieved, or by a
  failed \<open>PQconsumeInput\<close>, and then the first of them were. The recorded status \<open>ok\<close> is
  true exactly when the loop was left by the NULL and the last result retrieved has the
  status \<open>PGRES_TUPLES_OK\<close>. If \<open>ok\<close> is true the held result exists, has that status,
  and is returned wrapped in a \<open>ResultSet\<close> without further calls. If \<open>ok\<close> is false the
  method throws the text made of \<open>status()\<close> and the SQL, after releasing the held
  result: every result obtained during the call has then been released.\<close>

theorem executeQuery_drain:
  assumes send:
      "(if type = 1 then PQsendQueryParams (conn_m c) sql w else PQsendQuery (conn_m c) sql w)
         = (sent, w1)"
    and sock: "PQsocket (conn_m c) w1 = (sock, w2)"
    and ok_send: "sent \<noteq> 0" "0 \<le> sock"
    and loop: "executeQuery_loop sql sock False None c w2 = (Inr (ok, result), c1, w3)"
  shows "c1 = c
    \<and> take (length (calls w2)) (calls w3) = calls w2
    \<and> result = (if obtained (drop (length (calls w2)) (calls w3)) = [] then None
                 else Some (last (obtained (drop (length (calls w2)) (calls w3)))))
    \<and> released (drop (length (calls w2)) (calls w3))
        = butlast (obtained (drop (length (calls w2)) (calls w3)))
    \<and> (ok \<longrightarrow>
         result \<noteq> None \<and> PQresultStatus (the result) = PGRES_TUPLES_OK
         \<and> executeQuery sql type c w = (Inr (ResultSet result), c, w3))
    \<and> (\<not> ok \<longrightarrow>
         executeQuery sql type c w =
           (Inl (datasource_exception
              (''Postgis Plugin: '' @ fst (status c w3) @ [newline]
                 @ ''in executeQuery Full sql was: '' @ [quote] @ sql @ [quote, newline])),
            c,
            case result of None \<Rightarrow> snd (status c w3) | Some r \<Rightarrow> PQclear r (snd (status c w3)))
         \<and> released (drop (length (calls w)) (calls (snd (snd (executeQuery sql type c w)))))
             = obtained (drop (length (calls w)) (calls (snd (snd (executeQuery sql type c w))))))
    \<and> drop (length (calls w2)) (calls w3) \<noteq> []
    \<and> (last (calls w3) = Called_PQgetResult None \<or> last (calls w3) = Called_PQconsumeInput 0)
    \<and> prefix (obtained (drop (length (calls w2)) (calls w3))) (map the (queued w))
    \<and> (last (calls w3) = Called_PQgetResult None
         \<longrightarrow> obtained (drop (length (calls w2)) (calls w3)) = map the (queued w))
    \<and> ok = (last (calls w3) = Called_PQgetResult None
            \<and> obtained (drop (length (calls w2)) (calls w3)) \<noteq> []
            \<and> PQresultStatus (last (obtained (drop (length (calls w2)) (calls w3))))
                = PGRES_TUPLES_OK)"
proof -
  from executeQuery_loop_spec [OF loop] obtain L where L: "calls w3 = calls w2 @ L"
    and c1: "c1 = c" and nL: "nofail L"
    and res: "result = (if obtained L = [] then None else Some (last (obtained L)))"
    and rel: "released L = butlast (obtained L)"
    and okL: "ok \<longrightarrow> obtained L \<noteq> [] \<and> PQresultStatus (last (obtained L)) = PGRES_TUPLES_OK"
    by (auto simp: held_def split: if_splits)
  from L have dL: "drop (length (calls w2)) (calls w3) = L"
    "take (length (calls w2)) (calls w3) = calls w2"
    by simp_all
  from send_silent [OF send] obtain n1 where n1: "calls w1 = calls w @ n1" "silent n1"
    by blast
  note n2 = PQsocket_calls [OF sock]
  have qw: "queued w2 = queued w"
    using send sock
    by (auto simp: queued_def PQsendQueryParams_def PQsendQuery_def PQsocket_def
          split: if_splits list.splits)
  from executeQuery_loop_left [OF loop] obtain L' where L': "calls w3 = calls w2 @ L'"
    "L' \<noteq> []"
    "last L' = Called_PQgetResult None \<or> last L' = Called_PQconsumeInput 0"
    "ok = (last L' = Called_PQgetResult None
          \<and> (if obtained L' = [] then False
              else PQresultStatus (last (obtained L')) = PGRES_TUPLES_OK))"
    "prefix (obtained L') (map the (queued w2))"
    "last L' = Called_PQgetResult None \<longrightarrow> obtained L' = map the (queued w2)"
    by blast
  from L L'(1) have same: "L' = L" by simp
  from L L'(2) same have lastL: "last (calls w3) = last L" by simp
  have left: "L \<noteq> []"
    "last (calls w3) = Called_PQgetResult None \<or> last (calls w3) = Called_PQconsumeInput 0"
    "prefix (obtained L) (map the (queued w))"
    "last (calls w3) = Called_PQgetResult None \<longrightarrow> obtained L = map the (queued w)"
    "ok = (last (calls w3) = Called_PQgetResult None \<and> obtained L \<noteq> []
          \<and> PQresultStatus (last (obtained L)) = PGRES_TUPLES_OK)"
    using L'(2-6) same lastL qw by auto
  have success: "(if sock < 0 then 0 else sent) \<noteq> 0"
    using ok_send by simp
  have returned: "executeQuery sql type c w = (Inr (ResultSet result), c, w3)" if ok
    using that send sock success loop c1 by (simp add: executeQuery_def)
  obtain s w4 where st: "status c w3 = (s, w4)" by (cases "status c w3")
  from status_silent [OF st] obtain n4 where n4: "calls w4 = calls w3 @ n4" "silent n4"
    by blast
  let ?w5 = "case result of None \<Rightarrow> w4 | Some r \<Rightarrow> PQclear r w4"
  have thrown: "executeQuery sql type c w =
      (Inl (datasource_exception
         (''Postgis Plugin: '' @ s @ [newline]
            @ ''in executeQuery Full sql was: '' @ [quote] @ sql @ [quote, newline])),
       c, ?w5)" if "\<not> ok"
    using that send sock success loop c1 st by (simp add: executeQuery_def)
  have c5: "calls ?w5 = calls w @ (n1 @ [Called_PQsocket sock]) @ L @ n4
      @ map Called_PQclear (held result)"
    using n1(1) n2 L n4(1) clear_held(1) [where result = result and w = w4] by simp
  have hr: "butlast (obtained L) @ held result = obtained L"
    using res by (cases "obtained L = []") (simp_all add: held_def)
  have all: "released (drop (length (calls w)) (calls ?w5))
      = obtained (drop (length (calls w)) (calls ?w5))"
    unfolding c5 using n1(2) n4(2) rel hr
    by (simp add: silent_def obtained_append released_append clear_held)
  have old: "c1 = c
    \<and> take (length (calls w2)) (calls w3) = calls w2
    \<and> result = (if obtained (drop (length (calls w2)) (calls w3)) = [] then None
                 else Some (last (obtained (drop (length (calls w2)) (calls w3)))))
    \<and> released (drop (length (calls w2)) (calls w3))
        = butlast (obtained (drop (length (calls w2)) (calls w3)))
    \<and> (ok \<longrightarrow>
         result \<noteq> None \<and> PQresultStatus (the result) = PGRES_TUPLES_OK
         \<and> executeQuery sql type c w = (Inr (ResultSet result), c, w3))
    \<and> (\<not> ok \<longrightarrow>
         executeQuery sql type c w =
           (Inl (datasource_exception
              (''Postgis Plugin: '' @ fst (status c w3) @ [newline]
                 @ ''in executeQuery Full sql was: '' @ [quote] @ sql @ [quote, newline])),
            c,
            case result of None \<Rightarrow> snd (status c w3) | Some r \<Rightarrow> PQclear r (snd (status c w3)))
         \<and> released (drop (length (calls w)) (calls (snd (snd (executeQuery sql type c w)))))
             = obtained (drop (length (calls w)) (calls (snd (snd (executeQuery sql type c w))))))"
    using c1 dL res rel okL returned thrown all st
    by (cases ok) auto
  from left show ?thesis
    unfolding dL by (intro conjI old [unfolded dL, THEN conjunct1]
        old [unfolded dL, THEN conjunct2, THEN conjunct1]
        old [unfolded dL, THEN conjunct2, THEN conjunct2, THEN conjunct1]
        old [unfolded dL, THEN conjunct2, THEN conjunct2, THEN conjunct2, THEN conjunct1]
        old [unfolded dL, THEN conjunct2, THEN conjunct2, THEN conjunct2, THEN conjunct2,
          THEN conjunct1]
        old [unfolded dL, THEN conjunct2, THEN conjunct2, THEN conjunct2, THEN conjunct2,
          THEN conjunct2])
qed

theorem executeQuery_drain_witness:
  "fst (executeQuery ''SELECT 1'' 0 ex_conn ex_libpq)
     = Inr (ResultSet (Some (PGresult 2 PGRES_TUPLES_OK)))
   \<and> released (calls (snd (snd (executeQuery ''SELECT 1'' 0 ex_conn ex_libpq))))
       = [PGresult 1 PGRES_COMMAND_OK]
   \<and> fst (executeQuery ''SELECT 1'' 0 ex_conn ex_command)
       = Inl (datasource_exception (''Postgis Plugin: syntax error'' @ [newline]
           @ ''in executeQuery Full sql was: '' @ [quote] @ ''SELECT 1'' @ [quote, newline]))
   \<and> released (calls (snd (snd (executeQuery ''SELECT 1'' 0 ex_conn ex_command))))
       = [PGresult 1 PGRES_COMMAND_OK]
   \<and> executeQuery ''SELECT 1'' 0 ex_conn ex_rows
       = (Inr (ResultSet (Some (PGresult 1 PGRES_TUPLES_OK))), ex_conn,
          ex_rows\<lparr>sendQuery_replies := [], socket_replies := [], consumeInput_replies := [1],
            isBusy_replies := [], getResult_replies := [], elapsed_replies := [],
            select_replies := [],
            calls := [Called_PQsendQuery ''SELECT 1'' 1, Called_PQsocket 5,
              Called_PQconsumeInput 1, Called_PQisBusy 1, Called_wall_clock_elapsed 7,
              Called_select 6 0 3993000 (1, []), Called_PQisBusy 0,
              Called_PQgetResult (Some (PGresult 1 PGRES_TUPLES_OK)),
              Called_PQconsumeInput 1, Called_PQisBusy 0, Called_PQisBusy 0,
              Called_PQgetResult None]\<rparr>)"
proof -
  let ?u1 = "snd (PQsendQuery (conn_m ex_conn) ''SELECT 1'' ex_rows)"
  let ?u2 = "snd (PQsocket (conn_m ex_conn) ?u1)"
  let ?u3 = "ex_rows\<lparr>sendQuery_replies := [], socket_replies := [], consumeInput_replies := [1],
            isBusy_replies := [], getResult_replies := [], elapsed_replies := [],
            select_replies := [],
            calls := [Called_PQsendQuery ''SELECT 1'' 1, Called_PQsocket 5,
              Called_PQconsumeInput 1, Called_PQisBusy 1, Called_wall_clock_elapsed 7,
              Called_select 6 0 3993000 (1, []), Called_PQisBusy 0,
              Called_PQgetResult (Some (PGresult 1 PGRES_TUPLES_OK)),
              Called_PQconsumeInput 1, Called_PQisBusy 0, Called_PQisBusy 0,
              Called_PQgetResult None]\<rparr>"
  have a'': "(if (0::int) = 1 then PQsendQueryParams (conn_m ex_conn) ''SELECT 1'' ex_rows
            else PQsendQuery (conn_m ex_conn) ''SELECT 1'' ex_rows) = (1, ?u1)"
    by (simp add: PQsendQuery_def ex_rows_def ex_libpq_def)
  have b'': "PQsocket (conn_m ex_conn) ?u1 = (5, ?u2)"
    by (simp add: PQsendQuery_def PQsocket_def ex_rows_def ex_libpq_def)
  have l'': "executeQuery_loop ''SELECT 1'' 5 False None ex_conn ?u2
      = (Inr (last (calls ?u3) = Called_PQgetResult None
              \<and> obtained (drop (length (calls ?u2)) (calls ?u3)) \<noteq> []
              \<and> PQresultStatus (last (obtained (drop (length (calls ?u2)) (calls ?u3))))
                  = PGRES_TUPLES_OK,
              Some (PGresult 1 PGRES_TUPLES_OK)), ex_conn, ?u3)"
    by (simp add: ex_conn_def ex_rows_def ex_libpq_def PQsendQuery_def PQsocket_def
          executeQuery_loop.simps executeQuery_do_while.simps executeQuery_wait_def
          PQconsumeInput_def PQisBusy_def wall_clock_elapsed_def select_def PQgetResult_def
          PQclear_def)
  have k'': "last (calls ?u3) = Called_PQgetResult None
      \<and> obtained (drop (length (calls ?u2)) (calls ?u3)) \<noteq> []
      \<and> PQresultStatus (last (obtained (drop (length (calls ?u2)) (calls ?u3))))
          = PGRES_TUPLES_OK"
    by (simp add: ex_rows_def ex_libpq_def PQsendQuery_def PQsocket_def)
  let ?w1 = "snd (PQsendQuery (conn_m ex_conn) ''SELECT 1'' ex_libpq)"
  let ?w2 = "snd (PQsocket (conn_m ex_conn) ?w1)"
  let ?w3 = "snd (snd (executeQuery_loop ''SELECT 1'' 5 False None ex_conn ?w2))"
  have a: "(if (0::int) = 1 then PQsendQueryParams (conn_m ex_conn) ''SELECT 1'' ex_libpq
            else PQsendQuery (conn_m ex_conn) ''SELECT 1'' ex_libpq) = (1, ?w1)"
    by (simp add: PQsendQuery_def ex_libpq_def)
  have b: "PQsocket (conn_m ex_conn) ?w1 = (5, ?w2)"
    by (simp add: PQsendQuery_def PQsocket_def ex_libpq_def)
  have l: "executeQuery_loop ''SELECT 1'' 5 False None ex_conn ?w2
      = (Inr (True, Some (PGresult 2 PGRES_TUPLES_OK)), ex_conn, ?w3)"
    by (simp add: prod_eq_iff ex_conn_def ex_libpq_def PQsendQuery_def PQsocket_def
          executeQuery_loop.simps executeQuery_do_while.simps executeQuery_wait_def
          PQconsumeInput_def PQisBusy_def wall_clock_elapsed_def select_def PQgetResult_def
          PQclear_def)
  have r: "released (calls ?w3) = [PGresult 1 PGRES_COMMAND_OK]"
    by (simp add: ex_conn_def ex_libpq_def PQsendQuery_def PQsocket_def
          executeQuery_loop.simps executeQuery_do_while.simps executeQuery_wait_def
          PQconsumeInput_def PQisBusy_def wall_clock_elapsed_def select_def PQgetResult_def
          PQclear_def)
  let ?v1 = "snd (PQsendQuery (conn_m ex_conn) ''SELECT 1'' ex_command)"
  let ?v2 = "snd (PQsocket (conn_m ex_conn) ?v1)"
  let ?v3 = "snd (snd (executeQuery_loop ''SELECT 1'' 5 False None ex_conn ?v2))"
  have a': "(if (0::int) = 1 then PQsendQueryParams (conn_m ex_conn) ''SELECT 1'' ex_command
            else PQsendQuery (conn_m ex_conn) ''SELECT 1'' ex_command) = (1, ?v1)"
    by (simp add: PQsendQuery_def ex_command_def ex_libpq_def)
  have b': "PQsocket (conn_m ex_conn) ?v1 = (5, ?v2)"
    by (simp add: PQsendQuery_def PQsocket_def ex_command_def ex_libpq_def)
  have l': "executeQuery_loop ''SELECT 1'' 5 False None ex_conn ?v2
      = (Inr (False, Some (PGresult 1 PGRES_COMMAND_OK)), ex_conn, ?v3)"
    by (simp add: prod_eq_iff ex_conn_def ex_command_def ex_libpq_def PQsendQuery_def
          PQsocket_def executeQuery_loop.simps executeQuery_do_while.simps
          executeQuery_wait_def PQconsumeInput_def PQisBusy_def wall_clock_elapsed_def
          select_def PQgetResult_def PQclear_def)
  have s': "fst (status ex_conn ?v3) = ''syntax error''"
    by (simp add: ex_conn_def ex_command_def ex_libpq_def PQsendQuery_def
          PQsocket_def executeQuery_loop.simps executeQuery_do_while.simps
          executeQuery_wait_def PQconsumeInput_def PQisBusy_def wall_clock_elapsed_def
          select_def PQgetResult_def PQclear_def status_def isOK_def PQstatus_def
          PQerrorMessage_def)
  have o': "obtained (calls (snd (snd (executeQuery ''SELECT 1'' 0 ex_conn ex_command))))
      = [PGresult 1 PGRES_COMMAND_OK]"
    by (simp add: executeQuery_def ex_conn_def ex_command_def ex_libpq_def PQsendQuery_def
          PQsocket_def executeQuery_loop.simps executeQuery_do_while.simps
          executeQuery_wait_def PQconsumeInput_def PQisBusy_def wall_clock_elapsed_def
          select_def PQgetResult_def PQclear_def status_def isOK_def PQstatus_def
          PQerrorMessage_def)
  have e: "calls ex_libpq = []" "calls ex_command = []"
    by (simp_all add: ex_command_def ex_libpq_def)
  have n: "(1::int) \<noteq> 0" "(0::int) \<le> 5"
    by simp_all
  from executeQuery_drain [OF a b n l]
  have x: "executeQuery ''SELECT 1'' 0 ex_conn ex_libpq
      = (Inr (ResultSet (Some (PGresult 2 PGRES_TUPLES_OK))), ex_conn, ?w3)"
    by blast
  from executeQuery_drain [OF a' b' n l']
  have y: "executeQuery ''SELECT 1'' 0 ex_conn ex_command =
      (Inl (datasource_exception
         (''Postgis Plugin: '' @ fst (status ex_conn ?v3) @ [newline]
            @ ''in executeQuery Full sql was: '' @ [quote] @ ''SELECT 1'' @ [quote, newline])),
       ex_conn,
       case Some (PGresult 1 PGRES_COMMAND_OK) of
         None \<Rightarrow> snd (status ex_conn ?v3)
       | Some r \<Rightarrow> PQclear r (snd (status ex_conn ?v3)))"
    and z: "released (drop (length (calls ex_command))
          (calls (snd (snd (executeQuery ''SELECT 1'' 0 ex_conn ex_command)))))
      = obtained (drop (length (calls ex_command))
          (calls (snd (snd (executeQuery ''SELECT 1'' 0 ex_conn ex_command)))))"
    by blast+
  from x r have "fst (executeQuery ''SELECT 1'' 0 ex_conn ex_libpq)
       = Inr (ResultSet (Some (PGresult 2 PGRES_TUPLES_OK)))
     \<and> released (calls (snd (snd (executeQuery ''SELECT 1'' 0 ex_conn ex_libpq))))
       = [PGresult 1 PGRES_COMMAND_OK]"
    by simp
  moreover from y s' have "fst (executeQuery ''SELECT 1'' 0 ex_conn ex_command)
       = Inl (datasource_exception (''Postgis Plugin: syntax error'' @ [newline]
           @ ''in executeQuery Full sql was: '' @ [quote] @ ''SELECT 1'' @ [quote, newline]))"
    by simp
  moreover from z o' e have "released (calls (snd (snd (executeQuery ''SELECT 1'' 0 ex_conn ex_command))))
       = [PGresult 1 PGRES_COMMAND_OK]"
    by simp
  moreover from executeQuery_drain [OF a'' b'' n l''] k''
  have "executeQuery ''SELECT 1'' 0 ex_conn ex_rows
      = (Inr (ResultSet (Some (PGresult 1 PGRES_TUPLES_OK))), ex_conn, ?u3)"
    by blast
  ultimately show ?thesis by blast
qed

subsection \<open>The budget of a wait\<close>

text \<open>When the handle is busy, \<open>select\<close> is called on the socket with
  \<open>tv_sec = 0\<close> and \<open>tv_usec = (statement_timeout_ - elapsed) * 1000\<close>, where \<open>elapsed\<close>
  is the reading of the timer taken just before. How long the call then blocks is the
  operating system's matter and outside this model.\<close>

lemma executeQuery_wait_budget:
  assumes "PQisBusy (conn_m c) w = (busy, wa)" and "busy \<noteq> 0"
    and "wall_clock_elapsed wa = (elapsed, wb)"
  shows "\<exists>re. calls (snd (snd (executeQuery_wait sql sock c w)))
      = calls w @ [Called_PQisBusy busy, Called_wall_clock_elapsed elapsed,
          Called_select (sock + 1) 0 ((statement_timeout_m c - elapsed) * 1000) re]
        @ (if fst re < 1 \<and> \<not> closed_m c then [Called_PQfinish (conn_m c)] else [])"
proof -
  obtain re wc where s:
    "select (sock + 1) 0 ((statement_timeout_m c - elapsed) * 1000) wb = (re, wc)"
    by (cases "select (sock + 1) 0 ((statement_timeout_m c - elapsed) * 1000) wb")
  obtain ret etext where re: "re = (ret, etext)" by (cases re)
  from assms s re PQisBusy_calls [OF assms(1)] wall_clock_elapsed_calls [OF assms(3)]
    select_calls [OF s]
  show ?thesis
    by (intro exI [of _ re])
       (simp add: executeQuery_wait_def close_def PQfinish_def)
qed

end
